theory Spec2Isabelle
  imports Main "HOL-Library.Word" "HOL-Library.Sublist"
begin

unbundle bit_operations_syntax

section \<open>The embedded controller behind its two ports\<close>

text \<open>
  The driver \<^verbatim>\<open>drivers/mfd/ahc1ec0.c\<close> talks to the controller through \<^verbatim>\<open>inb\<close> and
  \<^verbatim>\<open>outb\<close> on two ports, waits with \<^verbatim>\<open>udelay\<close>, and serialises its callers with one
  global mutex. Port values are \<^verbatim>\<open>uchar\<close>; return codes are C \<^verbatim>\<open>int\<close>s (0 or a negated
  errno; no arithmetic is done on them, so they are modelled as \<open>int\<close>).
\<close>

type_synonym uchar = "8 word"

text \<open>
  Modelled from the spec: the port identifiers \<^verbatim>\<open>EC_COMMAND_PORT\<close> and \<^verbatim>\<open>EC_STATUS_PORT\<close>
  are macros of \<^verbatim>\<open>linux/mfd/ahc1ec0.h\<close>, which is not part of the sources at hand. The
  spec names the boundary as a pair of ports, command and status/data; the comments of
  \<^verbatim>\<open>adv_get_dynamic_tab\<close> give them the distinct addresses 0x29A and 0x299.
\<close>

datatype port = EC_COMMAND_PORT | EC_STATUS_PORT

text \<open>
  The remaining macros of the missing header are parameters of the model: the retry
  budget and delay of the busy-waits, the table capacity, the command opcodes and the
  addresses of the SMBus cells.
\<close>

record ec_defs =
  EC_MAX_TIMEOUT_COUNT :: nat
  EC_UDELAY_TIME :: nat
  EC_MAX_TBL_NUM :: nat
  EC_HW_RAM_READ :: uchar
  EC_HW_RAM_WRITE :: uchar
  EC_TBL_WRITE_ITEM :: uchar
  EC_TBL_GET_PIN :: uchar
  EC_TBL_GET_DEVID :: uchar
  EC_AD_INDEX_WRITE :: uchar
  EC_AD_LSB_READ :: uchar
  EC_AD_MSB_READ :: uchar
  EC_GPIO_INDEX_WRITE :: uchar
  EC_GPIO_STATUS_READ :: uchar
  EC_GPIO_STATUS_WRITE :: uchar
  EC_GPIO_DIR_READ :: uchar
  EC_GPIO_DIR_WRITE :: uchar
  EC_SMBUS_CHANNEL :: uchar
  EC_SMBUS_SLV_ADDR :: uchar
  EC_SMBUS_CMD :: uchar
  EC_SMBUS_DATA :: uchar
  EC_SMBUS_PROTOCOL :: uchar
  EC_SMBUS_STATUS :: uchar
  EC_SMBUS_DAT_OFFSET :: "nat \<Rightarrow> uchar"
  SMBUS_WORD_READ :: uchar
  SMBUS_BYTE_READ :: uchar
  SMBUS_BYTE_WRITE :: uchar

text \<open>The errno values of \<^verbatim>\<open>linux/errno.h\<close> that the driver returns negated.\<close>

definition ETIMEDOUT :: int where
  "ETIMEDOUT = 110"

definition EINVAL :: int where
  "EINVAL = 22"

text \<open>
  The hardware is any state machine that answers port reads, takes port writes and lets
  time pass. Everything the driver does to it, and every operation on the mutex, is
  appended to a trace, so that the order of port operations can be stated.
\<close>

datatype event =
    EvInb port uchar
  | EvOutb uchar port
  | EvUdelay nat
  | EvLock
  | EvUnlock

record 's ec_hw =
  hw_inb :: "port \<Rightarrow> 's \<Rightarrow> uchar \<times> 's"
  hw_outb :: "uchar \<Rightarrow> port \<Rightarrow> 's \<Rightarrow> 's"
  hw_udelay :: "nat \<Rightarrow> 's \<Rightarrow> 's"

record 's world =
  chip :: 's
  lock_held :: bool
  trace :: "event list"

text \<open>
  A call that does not come back: \<^verbatim>\<open>mutex_lock\<close> on the held mutex blocks for ever (there
  is no other thread in this model to release it), and a NULL request pointer cannot be
  dereferenced.
\<close>

datatype fault = Deadlock | NullDeref

text \<open>Sequencing of calls that may not come back: a fault ends the caller too.\<close>

definition bindf :: "fault + 'a \<Rightarrow> ('a \<Rightarrow> fault + 'b) \<Rightarrow> fault + 'b" where
  "bindf m f = (case m of Inl e \<Rightarrow> Inl e | Inr x \<Rightarrow> f x)"

definition inb :: "'s ec_hw \<Rightarrow> port \<Rightarrow> 's world \<Rightarrow> uchar \<times> 's world" where
  "inb H p w =
     (let (v, c) = hw_inb H p (chip w)
      in (v, w\<lparr>chip := c, trace := trace w @ [EvInb p v]\<rparr>))"

definition outb :: "'s ec_hw \<Rightarrow> uchar \<Rightarrow> port \<Rightarrow> 's world \<Rightarrow> 's world" where
  "outb H v p w = w\<lparr>chip := hw_outb H v p (chip w), trace := trace w @ [EvOutb v p]\<rparr>"

definition udelay :: "'s ec_hw \<Rightarrow> nat \<Rightarrow> 's world \<Rightarrow> 's world" where
  "udelay H n w = w\<lparr>chip := hw_udelay H n (chip w), trace := trace w @ [EvUdelay n]\<rparr>"

definition mutex_lock :: "'s world \<Rightarrow> fault + 's world" where
  "mutex_lock w =
     (if lock_held w then Inl Deadlock
      else Inr (w\<lparr>lock_held := True, trace := trace w @ [EvLock]\<rparr>))"

text \<open>
  \<^verbatim>\<open>mutex_unlock\<close> leaves the mutex free whoever held it; an unlock of a mutex that is not
  held stays visible in the trace.
\<close>

definition mutex_unlock :: "'s world \<Rightarrow> 's world" where
  "mutex_unlock w = w\<lparr>lock_held := False, trace := trace w @ [EvUnlock]\<rparr>"

section \<open>Handshake primitives\<close>

text \<open>
  \<^verbatim>\<open>for (i = 0; i < EC_MAX_TIMEOUT_COUNT; i++)\<close>: the loops recurse on the number of
  iterations that are left.
\<close>

primrec wait_ibf_loop :: "ec_defs \<Rightarrow> 's ec_hw \<Rightarrow> nat \<Rightarrow> 's world \<Rightarrow> int \<times> 's world" where
  "wait_ibf_loop K H 0 w = (- ETIMEDOUT, w)"
| "wait_ibf_loop K H (Suc n) w =
     (let (v, w1) = inb H EC_COMMAND_PORT w
      in if v AND 0x02 = 0 then (0, w1)
         else wait_ibf_loop K H n (udelay H (EC_UDELAY_TIME K) w1))"

definition wait_ibf :: "ec_defs \<Rightarrow> 's ec_hw \<Rightarrow> 's world \<Rightarrow> int \<times> 's world" where
  "wait_ibf K H w = wait_ibf_loop K H (EC_MAX_TIMEOUT_COUNT K) w"

primrec wait_obf_loop :: "ec_defs \<Rightarrow> 's ec_hw \<Rightarrow> nat \<Rightarrow> 's world \<Rightarrow> int \<times> 's world" where
  "wait_obf_loop K H 0 w = (- ETIMEDOUT, w)"
| "wait_obf_loop K H (Suc n) w =
     (let (v, w1) = inb H EC_COMMAND_PORT w
      in if v AND 0x01 \<noteq> 0 then (0, w1)
         else wait_obf_loop K H n (udelay H (EC_UDELAY_TIME K) w1))"

definition wait_obf :: "ec_defs \<Rightarrow> 's ec_hw \<Rightarrow> 's world \<Rightarrow> int \<times> 's world" where
  "wait_obf K H w = wait_obf_loop K H (EC_MAX_TIMEOUT_COUNT K) w"

section \<open>HW-RAM accessor\<close>

text \<open>
  An output parameter \<^verbatim>\<open>uchar *data\<close> is modelled by passing the value the cell holds
  before the call and returning the value it holds after it. The \<^verbatim>\<open>pr_err\<close> lines only
  log and are left out.
\<close>

definition read_hw_ram ::
  "ec_defs \<Rightarrow> 's ec_hw \<Rightarrow> uchar \<Rightarrow> uchar \<Rightarrow> 's world \<Rightarrow> fault + (int \<times> uchar \<times> 's world)" where
  "read_hw_ram K H addr data w0 =
     (case mutex_lock w0 of Inl f \<Rightarrow> Inl f | Inr w1 \<Rightarrow>
        (let (ret, w2) = wait_ibf K H w1 in
         if ret \<noteq> 0 then Inr (ret, data, mutex_unlock w2) else
         let w3 = outb H (EC_HW_RAM_READ K) EC_COMMAND_PORT w2;
             (ret, w4) = wait_ibf K H w3 in
         if ret \<noteq> 0 then Inr (ret, data, mutex_unlock w4) else
         let w5 = outb H addr EC_STATUS_PORT w4;
             (ret, w6) = wait_obf K H w5 in
         if ret \<noteq> 0 then Inr (ret, data, mutex_unlock w6) else
         let (v, w7) = inb H EC_STATUS_PORT w6 in
         Inr (ret, v, mutex_unlock w7)))"

definition write_hw_ram ::
  "ec_defs \<Rightarrow> 's ec_hw \<Rightarrow> uchar \<Rightarrow> uchar \<Rightarrow> 's world \<Rightarrow> fault + (int \<times> 's world)" where
  "write_hw_ram K H addr data w0 =
     (case mutex_lock w0 of Inl f \<Rightarrow> Inl f | Inr w1 \<Rightarrow>
        (let (ret, w2) = wait_ibf K H w1 in
         if ret \<noteq> 0 then Inr (ret, mutex_unlock w2) else
         let w3 = outb H (EC_HW_RAM_WRITE K) EC_COMMAND_PORT w2;
             (ret, w4) = wait_ibf K H w3 in
         if ret \<noteq> 0 then Inr (ret, mutex_unlock w4) else
         let w5 = outb H addr EC_STATUS_PORT w4;
             (ret, w6) = wait_ibf K H w5 in
         if ret \<noteq> 0 then Inr (ret, mutex_unlock w6) else
         let w7 = outb H data EC_STATUS_PORT w6 in
         Inr (0, mutex_unlock w7)))"

text \<open>
  \<^verbatim>\<open>do { ... } while (retry-- > 0)\<close> with \<^verbatim>\<open>retry = 1000\<close>: the body runs, then the old value
  of \<^verbatim>\<open>retry\<close> is tested. \<^verbatim>\<open>!read_hw_ram(addr, &data)\<close> holds when the read returned 0.
\<close>

fun wait_smbus_loop ::
  "ec_defs \<Rightarrow> 's ec_hw \<Rightarrow> nat \<Rightarrow> 's world \<Rightarrow> fault + (int \<times> 's world)" where
  "wait_smbus_loop K H retry w =
     (case read_hw_ram K H (EC_SMBUS_PROTOCOL K) 0xFF w of Inl f \<Rightarrow> Inl f
      | Inr (r, data, w1) \<Rightarrow>
          if r = 0 then Inr (0, w1)
          else if data = 0 then Inr (0, w1)
          else (let w2 = udelay H (EC_UDELAY_TIME K) w1 in
                case retry of 0 \<Rightarrow> Inr (- ETIMEDOUT, w2)
                | Suc retry' \<Rightarrow> wait_smbus_loop K H retry' w2))"

definition wait_smbus_protocol_finish ::
  "ec_defs \<Rightarrow> 's ec_hw \<Rightarrow> 's world \<Rightarrow> fault + (int \<times> 's world)" where
  "wait_smbus_protocol_finish K H w = wait_smbus_loop K H 1000 w"

section \<open>Dynamic table enumeration\<close>

record Dynamic_Tab =
  DeviceID :: uchar
  HWPinNumber :: uchar

text \<open>
  \<^verbatim>\<open>pdata->dym_tbl\<close> is a list of \<^verbatim>\<open>EC_MAX_TBL_NUM\<close> entries. The first loop of
  \<^verbatim>\<open>adv_get_dynamic_tab\<close> writes the two fields of every entry.
\<close>

function tbl_init_loop :: "ec_defs \<Rightarrow> nat \<Rightarrow> Dynamic_Tab list \<Rightarrow> Dynamic_Tab list" where
  "tbl_init_loop K i tbl =
     (if i < EC_MAX_TBL_NUM K
      then tbl_init_loop K (Suc i) (tbl[i := (tbl ! i)\<lparr>DeviceID := 0xff, HWPinNumber := 0xff\<rparr>])
      else tbl)"
  by pat_completeness auto
termination
  by (relation "measure (\<lambda>(K, i, tbl). EC_MAX_TBL_NUM K - i)") auto

text \<open>
  One pass through the body of the second loop, for item \<open>i\<close>. \<open>Some ret\<close> is a
  \<^verbatim>\<open>return ret\<close> out of the loop (the mutex is released on each of them), \<open>None\<close> is the
  end of the body. \<^verbatim>\<open>outb(i, ...)\<close> truncates the \<^verbatim>\<open>int\<close> to a byte.
\<close>

definition tab_item ::
  "ec_defs \<Rightarrow> 's ec_hw \<Rightarrow> nat \<Rightarrow> Dynamic_Tab list \<Rightarrow> 's world
     \<Rightarrow> int option \<times> Dynamic_Tab list \<times> 's world" where
  "tab_item K H i tbl w0 =
     (let (ret, w1) = wait_ibf K H w0 in
      if ret \<noteq> 0 then (Some ret, tbl, mutex_unlock w1) else
      let w2 = outb H (EC_TBL_WRITE_ITEM K) EC_COMMAND_PORT w1;
          (ret, w3) = wait_ibf K H w2 in
      if ret \<noteq> 0 then (Some ret, tbl, mutex_unlock w3) else
      let w4 = outb H (of_nat i) EC_STATUS_PORT w3;
          (ret, w5) = wait_obf K H w4 in
      if ret \<noteq> 0 then (Some ret, tbl, mutex_unlock w5) else
      let (v, w6) = inb H EC_STATUS_PORT w5 in
      if v = 0xff then (Some (- EINVAL), tbl, mutex_unlock w6) else
      let (ret, w7) = wait_ibf K H w6 in
      if ret \<noteq> 0 then (Some ret, tbl, mutex_unlock w7) else
      let w8 = outb H (EC_TBL_GET_PIN K) EC_COMMAND_PORT w7;
          (ret, w9) = wait_obf K H w8 in
      if ret \<noteq> 0 then (Some ret, tbl, mutex_unlock w9) else
      let (v, w10) = inb H EC_STATUS_PORT w9;
          pin_tmp = v AND 0xff;
          (ret, w11) = wait_ibf K H w10 in
      if ret \<noteq> 0 then (Some ret, tbl, mutex_unlock w11) else
      if pin_tmp = 0xff then (Some (- EINVAL), tbl, mutex_unlock w11) else
      let w12 = outb H (EC_TBL_GET_DEVID K) EC_COMMAND_PORT w11;
          (ret, w13) = wait_obf K H w12 in
      if ret \<noteq> 0 then (Some ret, tbl, mutex_unlock w13) else
      let (v, w14) = inb H EC_STATUS_PORT w13;
          device_id = v AND 0xff;
          tbl1 = tbl[i := (tbl ! i)\<lparr>DeviceID := device_id\<rparr>];
          tbl2 = tbl1[i := (tbl1 ! i)\<lparr>HWPinNumber := pin_tmp\<rparr>]
      in (None, tbl2, w14))"

function tab_loop ::
  "ec_defs \<Rightarrow> 's ec_hw \<Rightarrow> nat \<Rightarrow> Dynamic_Tab list \<Rightarrow> 's world \<Rightarrow> int \<times> Dynamic_Tab list \<times> 's world" where
  "tab_loop K H i tbl w =
     (if i < EC_MAX_TBL_NUM K
      then (case tab_item K H i tbl w of
              (Some ret, tbl', w') \<Rightarrow> (ret, tbl', w')
            | (None, tbl', w') \<Rightarrow> tab_loop K H (Suc i) tbl' w')
      else (0, tbl, mutex_unlock w))"
  by pat_completeness auto
termination
  by (relation "measure (\<lambda>(K, H, i, tbl, w). EC_MAX_TBL_NUM K - i)") auto

definition adv_get_dynamic_tab ::
  "ec_defs \<Rightarrow> 's ec_hw \<Rightarrow> Dynamic_Tab list \<Rightarrow> 's world \<Rightarrow> fault + (int \<times> Dynamic_Tab list \<times> 's world)" where
  "adv_get_dynamic_tab K H dym_tbl w0 =
     (case mutex_lock w0 of Inl f \<Rightarrow> Inl f
      | Inr w1 \<Rightarrow> Inr (tab_loop K H 0 (tbl_init_loop K 0 dym_tbl) w1))"

section \<open>Indexed subsystem protocols\<close>

text \<open>
  \<^verbatim>\<open>read_ad_value\<close> returns the sample and its error codes through the same \<^verbatim>\<open>int\<close>.
  \<^verbatim>\<open>ret_val\<close> is a \<^verbatim>\<open>u32\<close>: the products wrap at 32 bits and the \<^verbatim>\<open>return\<close> reads the
  result back as a signed \<^verbatim>\<open>int\<close>.
\<close>

definition read_ad_value ::
  "ec_defs \<Rightarrow> 's ec_hw \<Rightarrow> uchar \<Rightarrow> uchar \<Rightarrow> 's world \<Rightarrow> fault + (int \<times> 's world)" where
  "read_ad_value K H hwpin multi w0 =
     (case mutex_lock w0 of Inl f \<Rightarrow> Inl f | Inr w1 \<Rightarrow>
        (let (ret, w2) = wait_ibf K H w1 in
         if ret \<noteq> 0 then Inr (ret, mutex_unlock w2) else
         let w3 = outb H (EC_AD_INDEX_WRITE K) EC_COMMAND_PORT w2;
             (ret, w4) = wait_ibf K H w3 in
         if ret \<noteq> 0 then Inr (ret, mutex_unlock w4) else
         let w5 = outb H hwpin EC_STATUS_PORT w4;
             (ret, w6) = wait_obf K H w5 in
         if ret \<noteq> 0 then Inr (ret, mutex_unlock w6) else
         let (v, w7) = inb H EC_STATUS_PORT w6 in
         if v = 0xff then Inr (- 1, mutex_unlock w7) else
         let (ret, w8) = wait_ibf K H w7 in
         if ret \<noteq> 0 then Inr (ret, mutex_unlock w8) else
         let w9 = outb H (EC_AD_LSB_READ K) EC_COMMAND_PORT w8;
             (ret, w10) = wait_obf K H w9 in
         if ret \<noteq> 0 then Inr (ret, mutex_unlock w10) else
         let (LSB, w11) = inb H EC_STATUS_PORT w10;
             (ret, w12) = wait_ibf K H w11 in
         if ret \<noteq> 0 then Inr (ret, mutex_unlock w12) else
         let w13 = outb H (EC_AD_MSB_READ K) EC_COMMAND_PORT w12;
             (ret, w14) = wait_obf K H w13 in
         if ret \<noteq> 0 then Inr (ret, mutex_unlock w14) else
         let (MSB, w15) = inb H EC_STATUS_PORT w14;
             ret_val = (push_bit 8 (ucast MSB) OR ucast LSB) AND (0x03FF :: 32 word);
             ret_val = ret_val * ucast multi * 100
         in Inr (sint ret_val, mutex_unlock w15)))"

definition read_gpio_status ::
  "ec_defs \<Rightarrow> 's ec_hw \<Rightarrow> uchar \<Rightarrow> uchar \<Rightarrow> 's world \<Rightarrow> fault + (int \<times> uchar \<times> 's world)" where
  "read_gpio_status K H PinNumber pvalue w0 =
     (case mutex_lock w0 of Inl f \<Rightarrow> Inl f | Inr w1 \<Rightarrow>
        (let (ret, w2) = wait_ibf K H w1 in
         if ret \<noteq> 0 then Inr (ret, pvalue, mutex_unlock w2) else
         let w3 = outb H (EC_GPIO_INDEX_WRITE K) EC_COMMAND_PORT w2;
             (ret, w4) = wait_ibf K H w3 in
         if ret \<noteq> 0 then Inr (ret, pvalue, mutex_unlock w4) else
         let w5 = outb H PinNumber EC_STATUS_PORT w4;
             (ret, w6) = wait_obf K H w5 in
         if ret \<noteq> 0 then Inr (ret, pvalue, mutex_unlock w6) else
         let (v, w7) = inb H EC_STATUS_PORT w6 in
         if v = 0xff then Inr (- 1, pvalue, mutex_unlock w7) else
         let (ret, w8) = wait_ibf K H w7 in
         if ret \<noteq> 0 then Inr (ret, pvalue, mutex_unlock w8) else
         let w9 = outb H (EC_GPIO_STATUS_READ K) EC_COMMAND_PORT w8;
             (ret, w10) = wait_obf K H w9 in
         if ret \<noteq> 0 then Inr (ret, pvalue, mutex_unlock w10) else
         let (v, w11) = inb H EC_STATUS_PORT w10 in
         Inr (0, v, mutex_unlock w11)))"

definition write_gpio_status ::
  "ec_defs \<Rightarrow> 's ec_hw \<Rightarrow> uchar \<Rightarrow> uchar \<Rightarrow> 's world \<Rightarrow> fault + (int \<times> 's world)" where
  "write_gpio_status K H PinNumber val w0 =
     (case mutex_lock w0 of Inl f \<Rightarrow> Inl f | Inr w1 \<Rightarrow>
        (let (ret, w2) = wait_ibf K H w1 in
         if ret \<noteq> 0 then Inr (ret, mutex_unlock w2) else
         let w3 = outb H (EC_GPIO_INDEX_WRITE K) EC_COMMAND_PORT w2;
             (ret, w4) = wait_ibf K H w3 in
         if ret \<noteq> 0 then Inr (ret, mutex_unlock w4) else
         let w5 = outb H PinNumber EC_STATUS_PORT w4;
             (ret, w6) = wait_obf K H w5 in
         if ret \<noteq> 0 then Inr (ret, mutex_unlock w6) else
         let (v, w7) = inb H EC_STATUS_PORT w6 in
         if v = 0xff then Inr (- 1, mutex_unlock w7) else
         let (ret, w8) = wait_ibf K H w7 in
         if ret \<noteq> 0 then Inr (ret, mutex_unlock w8) else
         let w9 = outb H (EC_GPIO_STATUS_WRITE K) EC_COMMAND_PORT w8;
             (ret, w10) = wait_ibf K H w9 in
         if ret \<noteq> 0 then Inr (ret, mutex_unlock w10) else
         let w11 = outb H val EC_STATUS_PORT w10 in
         Inr (0, mutex_unlock w11)))"

definition read_gpio_dir ::
  "ec_defs \<Rightarrow> 's ec_hw \<Rightarrow> uchar \<Rightarrow> uchar \<Rightarrow> 's world \<Rightarrow> fault + (int \<times> uchar \<times> 's world)" where
  "read_gpio_dir K H PinNumber pvalue w0 =
     (case mutex_lock w0 of Inl f \<Rightarrow> Inl f | Inr w1 \<Rightarrow>
        (let (ret, w2) = wait_ibf K H w1 in
         if ret \<noteq> 0 then Inr (ret, pvalue, mutex_unlock w2) else
         let w3 = outb H (EC_GPIO_INDEX_WRITE K) EC_COMMAND_PORT w2;
             (ret, w4) = wait_ibf K H w3 in
         if ret \<noteq> 0 then Inr (ret, pvalue, mutex_unlock w4) else
         let w5 = outb H PinNumber EC_STATUS_PORT w4;
             (ret, w6) = wait_obf K H w5 in
         if ret \<noteq> 0 then Inr (ret, pvalue, mutex_unlock w6) else
         let (v, w7) = inb H EC_STATUS_PORT w6 in
         if v = 0xff then Inr (- 1, pvalue, mutex_unlock w7) else
         let (ret, w8) = wait_ibf K H w7 in
         if ret \<noteq> 0 then Inr (ret, pvalue, mutex_unlock w8) else
         let w9 = outb H (EC_GPIO_DIR_READ K) EC_COMMAND_PORT w8;
             (ret, w10) = wait_obf K H w9 in
         if ret \<noteq> 0 then Inr (ret, pvalue, mutex_unlock w10) else
         let (v, w11) = inb H EC_STATUS_PORT w10 in
         Inr (0, v, mutex_unlock w11)))"

definition write_gpio_dir ::
  "ec_defs \<Rightarrow> 's ec_hw \<Rightarrow> uchar \<Rightarrow> uchar \<Rightarrow> 's world \<Rightarrow> fault + (int \<times> 's world)" where
  "write_gpio_dir K H PinNumber val w0 =
     (case mutex_lock w0 of Inl f \<Rightarrow> Inl f | Inr w1 \<Rightarrow>
        (let (ret, w2) = wait_ibf K H w1 in
         if ret \<noteq> 0 then Inr (ret, mutex_unlock w2) else
         let w3 = outb H (EC_GPIO_INDEX_WRITE K) EC_COMMAND_PORT w2;
             (ret, w4) = wait_ibf K H w3 in
         if ret \<noteq> 0 then Inr (ret, mutex_unlock w4) else
         let w5 = outb H PinNumber EC_STATUS_PORT w4;
             (ret, w6) = wait_obf K H w5 in
         if ret \<noteq> 0 then Inr (ret, mutex_unlock w6) else
         let (v, w7) = inb H EC_STATUS_PORT w6 in
         if v = 0xff then Inr (- 1, mutex_unlock w7) else
         let (ret, w8) = wait_ibf K H w7 in
         if ret \<noteq> 0 then Inr (ret, mutex_unlock w8) else
         let w9 = outb H (EC_GPIO_DIR_WRITE K) EC_COMMAND_PORT w8;
             (ret, w10) = wait_ibf K H w9 in
         if ret \<noteq> 0 then Inr (ret, mutex_unlock w10) else
         let w11 = outb H val EC_STATUS_PORT w10 in
         Inr (0, mutex_unlock w11)))"

section \<open>SMBus pass-through\<close>

text \<open>
  The request structures share their first three fields. A request pointer is an
  \<open>option\<close>, \<open>None\<close> being NULL; the structure behind it is returned as the call
  leaves it.
\<close>

record EC_SMBUS_REQ =
  Channel :: uchar
  Address :: uchar
  Register :: uchar

record EC_SMBUS_WORD_DATA = EC_SMBUS_REQ +
  Value :: "16 word"

record EC_SMBUS_READ_BYTE = EC_SMBUS_REQ +
  Data :: uchar

type_synonym EC_SMBUS_WRITE_BYTE = EC_SMBUS_READ_BYTE

definition smbus_read_word ::
  "ec_defs \<Rightarrow> 's ec_hw \<Rightarrow> EC_SMBUS_WORD_DATA option \<Rightarrow> 's world
     \<Rightarrow> fault + (int \<times> EC_SMBUS_WORD_DATA option \<times> 's world)" where
  "smbus_read_word K H ptr w0 =
     (case ptr of None \<Rightarrow> Inl NullDeref | Some req \<Rightarrow>
      bindf (write_hw_ram K H (EC_SMBUS_CHANNEL K) (Channel req) w0) (\<lambda>(ret, w1).
      if ret \<noteq> 0 then Inr (ret, ptr, w1) else
      bindf (write_hw_ram K H (EC_SMBUS_SLV_ADDR K) (Address req) w1) (\<lambda>(ret, w2).
      if ret \<noteq> 0 then Inr (ret, ptr, w2) else
      bindf (write_hw_ram K H (EC_SMBUS_CMD K) (Register req) w2) (\<lambda>(ret, w3).
      if ret \<noteq> 0 then Inr (ret, ptr, w3) else
      bindf (write_hw_ram K H (EC_SMBUS_PROTOCOL K) (SMBUS_WORD_READ K) w3) (\<lambda>(ret, w4).
      if ret \<noteq> 0 then Inr (ret, ptr, w4) else
      bindf (wait_smbus_protocol_finish K H w4) (\<lambda>(ret, w5).
      if ret \<noteq> 0 then Inr (ret, ptr, w5) else
      bindf (read_hw_ram K H (EC_SMBUS_STATUS K) (SMBUS_WORD_READ K) w5) (\<lambda>(ret, data, w6).
      if ret \<noteq> 0 then Inr (ret, ptr, w6) else
      let sm_ready = data in
      if sm_ready \<noteq> 0x80 then Inr (ret, ptr, w6) else
      bindf (read_hw_ram K H (EC_SMBUS_DAT_OFFSET K 0) data w6) (\<lambda>(ret, data, w7).
      if ret \<noteq> 0 then Inr (ret, ptr, w7) else
      let MSB = data in
      bindf (read_hw_ram K H (EC_SMBUS_DAT_OFFSET K 1) data w7) (\<lambda>(ret, data, w8).
      if ret \<noteq> 0 then Inr (ret, ptr, w8) else
      let LSB = data;
          Value = push_bit 8 (ucast MSB) OR ucast LSB
      in Inr (0, Some (req\<lparr>Value := Value\<rparr>), w8))))))))))"

definition smbus_read_byte ::
  "ec_defs \<Rightarrow> 's ec_hw \<Rightarrow> EC_SMBUS_READ_BYTE option \<Rightarrow> 's world
     \<Rightarrow> fault + (int \<times> EC_SMBUS_READ_BYTE option \<times> 's world)" where
  "smbus_read_byte K H ptr w0 =
     (case ptr of None \<Rightarrow> Inr (- EINVAL, ptr, w0) | Some req \<Rightarrow>
      bindf (write_hw_ram K H (EC_SMBUS_CHANNEL K) (Channel req) w0) (\<lambda>(ret, w1).
      if ret \<noteq> 0 then Inr (ret, ptr, w1) else
      bindf (write_hw_ram K H (EC_SMBUS_SLV_ADDR K) (Address req) w1) (\<lambda>(ret, w2).
      if ret \<noteq> 0 then Inr (ret, ptr, w2) else
      bindf (write_hw_ram K H (EC_SMBUS_CMD K) (Register req) w2) (\<lambda>(ret, w3).
      if ret \<noteq> 0 then Inr (ret, ptr, w3) else
      bindf (write_hw_ram K H (EC_SMBUS_PROTOCOL K) (SMBUS_BYTE_READ K) w3) (\<lambda>(ret, w4).
      if ret \<noteq> 0 then Inr (ret, ptr, w4) else
      bindf (wait_smbus_protocol_finish K H w4) (\<lambda>(ret, w5).
      if ret \<noteq> 0 then Inr (ret, ptr, w5) else
      bindf (read_hw_ram K H (EC_SMBUS_STATUS K) (SMBUS_BYTE_READ K) w5) (\<lambda>(ret, data, w6).
      if ret \<noteq> 0 then Inr (ret, ptr, w6) else
      let sm_ready = data in
      if sm_ready \<noteq> 0x80 then Inr (ret, ptr, w6) else
      bindf (read_hw_ram K H (EC_SMBUS_DATA K) data w6) (\<lambda>(ret, data, w7).
      if ret \<noteq> 0 then Inr (ret, ptr, w7) else
      Inr (0, Some (req\<lparr>Data := data AND 0xFF\<rparr>), w7)))))))))"

text \<open>
  \<^verbatim>\<open>smbus_write_byte\<close> calls \<^verbatim>\<open>mutex_unlock\<close> before both of its returns and
  \<^verbatim>\<open>mutex_lock\<close> nowhere.
\<close>

definition smbus_write_byte ::
  "ec_defs \<Rightarrow> 's ec_hw \<Rightarrow> EC_SMBUS_WRITE_BYTE option \<Rightarrow> 's world
     \<Rightarrow> fault + (int \<times> 's world)" where
  "smbus_write_byte K H ptr w0 =
     (case ptr of None \<Rightarrow> Inl NullDeref | Some req \<Rightarrow>
      bindf (write_hw_ram K H (EC_SMBUS_CHANNEL K) (Channel req) w0) (\<lambda>(ret, w1).
      if ret \<noteq> 0 then Inr (ret, mutex_unlock w1) else
      bindf (write_hw_ram K H (EC_SMBUS_SLV_ADDR K) (Address req) w1) (\<lambda>(ret, w2).
      if ret \<noteq> 0 then Inr (ret, mutex_unlock w2) else
      bindf (write_hw_ram K H (EC_SMBUS_CMD K) (Register req) w2) (\<lambda>(ret, w3).
      if ret \<noteq> 0 then Inr (ret, mutex_unlock w3) else
      bindf (write_hw_ram K H (EC_SMBUS_DATA K) (Data req) w3) (\<lambda>(ret, w4).
      if ret \<noteq> 0 then Inr (ret, mutex_unlock w4) else
      bindf (write_hw_ram K H (EC_SMBUS_PROTOCOL K) (SMBUS_BYTE_WRITE K) w4) (\<lambda>(ret, w5).
      if ret \<noteq> 0 then Inr (ret, mutex_unlock w5) else
      bindf (wait_smbus_protocol_finish K H w5) (\<lambda>(ret, w6).
      if ret \<noteq> 0 then Inr (ret, mutex_unlock w6) else
      bindf (read_hw_ram K H (EC_SMBUS_STATUS K) (SMBUS_BYTE_WRITE K) w6) (\<lambda>(ret, data, w7).
      if ret \<noteq> 0 then Inr (ret, mutex_unlock w7) else
      let sm_ready = data in
      if sm_ready \<noteq> 0x80 then Inr (ret, mutex_unlock w7)
      else Inr (0, mutex_unlock w7)))))))))"

section \<open>Observing a run\<close>

text \<open>
  What a call did is read off the trace: \<open>proj f\<close> keeps, event by event, what \<open>f\<close>
  selects. The bytes read from the data port, the bytes read from the command port (the
  polls), all port reads, the traffic on the data port, and the operations on the mutex.
\<close>

definition proj :: "(event \<Rightarrow> 'a list) \<Rightarrow> event list \<Rightarrow> 'a list" where
  "proj f es = concat (map f es)"

fun data_read :: "event \<Rightarrow> uchar list" where
  "data_read (EvInb EC_STATUS_PORT v) = [v]"
| "data_read _ = []"

fun cmd_read :: "event \<Rightarrow> uchar list" where
  "cmd_read (EvInb EC_COMMAND_PORT v) = [v]"
| "cmd_read _ = []"

fun port_read :: "event \<Rightarrow> (port \<times> uchar) list" where
  "port_read (EvInb p v) = [(p, v)]"
| "port_read _ = []"

fun data_io :: "event \<Rightarrow> event list" where
  "data_io (EvInb EC_STATUS_PORT v) = [EvInb EC_STATUS_PORT v]"
| "data_io (EvOutb v EC_STATUS_PORT) = [EvOutb v EC_STATUS_PORT]"
| "data_io _ = []"

fun lock_op :: "event \<Rightarrow> event list" where
  "lock_op EvLock = [EvLock]"
| "lock_op EvUnlock = [EvUnlock]"
| "lock_op _ = []"

abbreviation status_reads :: "event list \<Rightarrow> uchar list" where
  "status_reads \<equiv> proj data_read"

abbreviation cmd_reads :: "event list \<Rightarrow> uchar list" where
  "cmd_reads \<equiv> proj cmd_read"

abbreviation port_reads :: "event list \<Rightarrow> (port \<times> uchar) list" where
  "port_reads \<equiv> proj port_read"

abbreviation status_io :: "event list \<Rightarrow> event list" where
  "status_io \<equiv> proj data_io"

abbreviation lock_ops :: "event list \<Rightarrow> event list" where
  "lock_ops \<equiv> proj lock_op"

text \<open>The events a call added to the trace.\<close>

definition since :: "'s world \<Rightarrow> 's world \<Rightarrow> event list" where
  "since w w' = drop (length (trace w)) (trace w')"

text \<open>
  A selection is blind to polling when it drops the reads of the command port and the
  delays, which is all that the handshake primitives do.
\<close>

definition poll_blind :: "(event \<Rightarrow> 'a list) \<Rightarrow> bool" where
  "poll_blind f = ((\<forall>v. f (EvInb EC_COMMAND_PORT v) = []) \<and> (\<forall>n. f (EvUdelay n) = []))"

text \<open>
  The two ways a bounded poll ends, in terms of the bytes it read: it returns 0 at the
  first byte that is ready, within the budget, or it returns \<open>- ETIMEDOUT\<close> after
  exactly the budget of bytes, none of them ready.
\<close>

definition poll_outcome :: "nat \<Rightarrow> (uchar \<Rightarrow> bool) \<Rightarrow> int \<Rightarrow> uchar list \<Rightarrow> bool" where
  "poll_outcome n ready r cs \<longleftrightarrow>
     r = 0 \<and> (\<exists>pre c. cs = pre @ [c] \<and> length pre < n \<and> ready c \<and> list_all (\<lambda>b. \<not> ready b) pre)
     \<or> r = - ETIMEDOUT \<and> length cs = n \<and> list_all (\<lambda>b. \<not> ready b) cs"

text \<open>
  The operations on the mutex in a stretch of the trace: \<open>paired\<close> when every
  \<^verbatim>\<open>mutex_lock\<close> is followed by its \<^verbatim>\<open>mutex_unlock\<close> and nothing else happens;
  \<open>unlock_after_pairs\<close> when such a stretch is followed by one more \<^verbatim>\<open>mutex_unlock\<close>.
\<close>

fun paired :: "event list \<Rightarrow> bool" where
  "paired [] = True"
| "paired (EvLock # EvUnlock # es) = paired es"
| "paired _ = False"

fun unlock_after_pairs :: "event list \<Rightarrow> bool" where
  "unlock_after_pairs [EvUnlock] = True"
| "unlock_after_pairs (EvLock # EvUnlock # es) = unlock_after_pairs es"
| "unlock_after_pairs _ = False"

text \<open>The byte that the completion poll of an SMBus transaction read last.\<close>

definition smbus_polled :: "ec_defs \<Rightarrow> 's ec_hw \<Rightarrow> 's world \<Rightarrow> uchar" where
  "smbus_polled K H w =
     last (status_reads (since w (snd (projr (wait_smbus_protocol_finish K H w)))))"

text \<open>
  What the controller answers for one item of the dynamic table: the echo of the item
  number, the pin number and the device identifier, in the order in which
  \<^verbatim>\<open>adv_get_dynamic_tab\<close> reads them; the table entry made of them; and whether the echo
  and the pin number are both other than 0xFF.
\<close>

type_synonym tab_answer = "uchar \<times> uchar \<times> uchar"

fun answer_bytes :: "tab_answer \<Rightarrow> uchar list" where
  "answer_bytes (e, p, d) = [e, p, d]"

fun answer_entry :: "tab_answer \<Rightarrow> Dynamic_Tab" where
  "answer_entry (e, p, d) = \<lparr>DeviceID = d, HWPinNumber = p\<rparr>"

fun answer_defined :: "tab_answer \<Rightarrow> bool" where
  "answer_defined (e, p, d) \<longleftrightarrow> e \<noteq> 0xFF \<and> p \<noteq> 0xFF"

section \<open>Test doubles for the port pair\<close>

text \<open>
  A scripted controller: the command port answers from one tape and the data port from
  another; an exhausted command tape reads as "input buffer clear, output buffer full"
  and an exhausted data tape as 0. Writes are ignored.
\<close>

definition tape_hw :: "(uchar list \<times> uchar list) ec_hw" where
  "tape_hw =
     \<lparr>hw_inb = (\<lambda>p (cs, ds). case p of
          EC_COMMAND_PORT \<Rightarrow> (case cs of [] \<Rightarrow> (0x01, (cs, ds)) | c # cs' \<Rightarrow> (c, (cs', ds)))
        | EC_STATUS_PORT \<Rightarrow> (case ds of [] \<Rightarrow> (0x00, (cs, ds)) | d # ds' \<Rightarrow> (d, (cs, ds')))),
      hw_outb = (\<lambda>v p s. s),
      hw_udelay = (\<lambda>n s. s)\<rparr>"

definition tape_world :: "uchar list \<Rightarrow> uchar list \<Rightarrow> (uchar list \<times> uchar list) world" where
  "tape_world cs ds = \<lparr>chip = (cs, ds), lock_held = False, trace = []\<rparr>"

text \<open>
  A controller that echoes writes: it keeps a RAM, follows the command/address/data
  phases of the "read RAM" and "write RAM" opcodes, and is always ready to take a byte.
\<close>

datatype ram_phase = Idle | ReadAddr | WriteAddr | WriteData uchar

record ram_chip =
  ram :: "uchar \<Rightarrow> uchar"
  phase :: ram_phase
  obuf :: uchar
  obf :: bool

definition ram_hw :: "ec_defs \<Rightarrow> ram_chip ec_hw" where
  "ram_hw K =
     \<lparr>hw_inb = (\<lambda>p c. case p of
          EC_COMMAND_PORT \<Rightarrow> (if obf c then 0x01 else 0x00, c)
        | EC_STATUS_PORT \<Rightarrow> (obuf c, c\<lparr>obf := False\<rparr>)),
      hw_outb = (\<lambda>v p c. case p of
          EC_COMMAND_PORT \<Rightarrow>
            c\<lparr>phase := (if v = EC_HW_RAM_READ K then ReadAddr
                         else if v = EC_HW_RAM_WRITE K then WriteAddr else Idle)\<rparr>
        | EC_STATUS_PORT \<Rightarrow>
            (case phase c of
               Idle \<Rightarrow> c
             | ReadAddr \<Rightarrow> c\<lparr>phase := Idle, obuf := ram c v, obf := True\<rparr>
             | WriteAddr \<Rightarrow> c\<lparr>phase := WriteData v\<rparr>
             | WriteData a \<Rightarrow> c\<lparr>ram := (ram c)(a := v), phase := Idle\<rparr>)),
      hw_udelay = (\<lambda>n c. c)\<rparr>"

definition ram_world :: "(uchar \<Rightarrow> uchar) \<Rightarrow> ram_chip world" where
  "ram_world m =
     \<lparr>chip = \<lparr>ram = m, phase = Idle, obuf = 0, obf = False\<rparr>, lock_held = False, trace = []\<rparr>"

text \<open>A configuration for the test doubles, with a small retry budget and table.\<close>

definition test_defs :: ec_defs where
  "test_defs =
     \<lparr>EC_MAX_TIMEOUT_COUNT = 3, EC_UDELAY_TIME = 200, EC_MAX_TBL_NUM = 4,
      EC_HW_RAM_READ = 0x88, EC_HW_RAM_WRITE = 0x89,
      EC_TBL_WRITE_ITEM = 0x20, EC_TBL_GET_PIN = 0x21, EC_TBL_GET_DEVID = 0x22,
      EC_AD_INDEX_WRITE = 0x15, EC_AD_LSB_READ = 0x16, EC_AD_MSB_READ = 0x1F,
      EC_GPIO_INDEX_WRITE = 0x10, EC_GPIO_STATUS_READ = 0x11, EC_GPIO_STATUS_WRITE = 0x12,
      EC_GPIO_DIR_READ = 0x1D, EC_GPIO_DIR_WRITE = 0x1E,
      EC_SMBUS_CHANNEL = 0x4B, EC_SMBUS_SLV_ADDR = 0x42, EC_SMBUS_CMD = 0x43,
      EC_SMBUS_DATA = 0x44, EC_SMBUS_PROTOCOL = 0x40, EC_SMBUS_STATUS = 0x41,
      EC_SMBUS_DAT_OFFSET = (\<lambda>n. 0x44 + of_nat n),
      SMBUS_WORD_READ = 0x09, SMBUS_BYTE_READ = 0x07, SMBUS_BYTE_WRITE = 0x06\<rparr>"

text \<open>The requests of the examples: channel 2, slave address 0x98, register 0x05.\<close>

definition byte_req :: EC_SMBUS_READ_BYTE where
  "byte_req = \<lparr>Channel = 2, Address = 0x98, Register = 0x05, Data = 0\<rparr>"


section \<open>Basic facts about the primitives\<close>

lemma proj_Nil [simp]: "proj f [] = []"
  by (simp add: proj_def)

lemma proj_Cons [simp]: "proj f (e # es) = f e @ proj f es"
  by (simp add: proj_def)

lemma proj_append [simp]: "proj f (xs @ ys) = proj f xs @ proj f ys"
  by (simp add: proj_def)

lemma inb_trace [simp]: "trace (snd (inb H p w)) = trace w @ [EvInb p (fst (inb H p w))]"
  by (simp add: inb_def case_prod_beta)

lemma inb_lock_held [simp]: "lock_held (snd (inb H p w)) = lock_held w"
  by (simp add: inb_def case_prod_beta)

lemma outb_trace [simp]: "trace (outb H v p w) = trace w @ [EvOutb v p]"
  by (simp add: outb_def)

lemma outb_lock_held [simp]: "lock_held (outb H v p w) = lock_held w"
  by (simp add: outb_def)

lemma udelay_trace [simp]: "trace (udelay H n w) = trace w @ [EvUdelay n]"
  by (simp add: udelay_def)

lemma udelay_lock_held [simp]: "lock_held (udelay H n w) = lock_held w"
  by (simp add: udelay_def)

lemma mutex_unlock_trace [simp]: "trace (mutex_unlock w) = trace w @ [EvUnlock]"
  by (simp add: mutex_unlock_def)

lemma mutex_unlock_lock_held [simp]: "\<not> lock_held (mutex_unlock w)"
  by (simp add: mutex_unlock_def)

lemma mutex_lock_Inr:
  "mutex_lock w = Inr w' \<longleftrightarrow> \<not> lock_held w \<and> w' = w\<lparr>lock_held := True, trace := trace w @ [EvLock]\<rparr>"
  by (auto simp: mutex_lock_def)

lemma poll_blind_simps [simp]:
  "poll_blind data_read" "poll_blind data_io" "poll_blind lock_op"
  by (simp_all add: poll_blind_def)

lemma wait_ibf_loop_proj:
  "poll_blind f \<Longrightarrow> proj f (trace (snd (wait_ibf_loop K H n w))) = proj f (trace w)"
  by (induction n arbitrary: w) (simp_all add: poll_blind_def case_prod_beta)

lemma wait_obf_loop_proj:
  "poll_blind f \<Longrightarrow> proj f (trace (snd (wait_obf_loop K H n w))) = proj f (trace w)"
  by (induction n arbitrary: w) (simp_all add: poll_blind_def case_prod_beta)

lemma wait_ibf_proj [simp]:
  "poll_blind f \<Longrightarrow> proj f (trace (snd (wait_ibf K H w))) = proj f (trace w)"
  by (simp add: wait_ibf_def wait_ibf_loop_proj)

lemma wait_obf_proj [simp]:
  "poll_blind f \<Longrightarrow> proj f (trace (snd (wait_obf K H w))) = proj f (trace w)"
  by (simp add: wait_obf_def wait_obf_loop_proj)

lemma wait_ibf_loop_lock_held: "lock_held (snd (wait_ibf_loop K H n w)) = lock_held w"
  by (induction n arbitrary: w) (simp_all add: case_prod_beta)

lemma wait_obf_loop_lock_held: "lock_held (snd (wait_obf_loop K H n w)) = lock_held w"
  by (induction n arbitrary: w) (simp_all add: case_prod_beta)

lemma wait_ibf_lock_held [simp]: "lock_held (snd (wait_ibf K H w)) = lock_held w"
  by (simp add: wait_ibf_def wait_ibf_loop_lock_held)

lemma wait_obf_lock_held [simp]: "lock_held (snd (wait_obf K H w)) = lock_held w"
  by (simp add: wait_obf_def wait_obf_loop_lock_held)

lemma wait_ibf_loop_ret: "fst (wait_ibf_loop K H n w) = 0 \<or> fst (wait_ibf_loop K H n w) = - ETIMEDOUT"
  by (induction n arbitrary: w) (simp_all add: case_prod_beta)

lemma wait_obf_loop_ret: "fst (wait_obf_loop K H n w) = 0 \<or> fst (wait_obf_loop K H n w) = - ETIMEDOUT"
  by (induction n arbitrary: w) (simp_all add: case_prod_beta)

lemma wait_ibf_ret: "fst (wait_ibf K H w) \<noteq> 0 \<Longrightarrow> fst (wait_ibf K H w) = - ETIMEDOUT"
  using wait_ibf_loop_ret [of K H "EC_MAX_TIMEOUT_COUNT K" w] by (simp add: wait_ibf_def)

lemma wait_obf_ret: "fst (wait_obf K H w) \<noteq> 0 \<Longrightarrow> fst (wait_obf K H w) = - ETIMEDOUT"
  using wait_obf_loop_ret [of K H "EC_MAX_TIMEOUT_COUNT K" w] by (simp add: wait_obf_def)

lemma read_hw_ram_Deadlock: "lock_held w \<Longrightarrow> read_hw_ram K H a d0 w = Inl Deadlock"
  by (simp add: read_hw_ram_def mutex_lock_def)

lemma read_hw_ram_facts:
  assumes "read_hw_ram K H a d0 w = Inr (r, d, w')"
  shows "\<not> lock_held w \<and> \<not> lock_held w'
    \<and> lock_ops (trace w') = lock_ops (trace w) @ [EvLock, EvUnlock]
    \<and> (r = 0 \<and> status_io (trace w') = status_io (trace w) @ [EvOutb a EC_STATUS_PORT, EvInb EC_STATUS_PORT d]
           \<and> status_reads (trace w') = status_reads (trace w) @ [d]
       \<or> r = - ETIMEDOUT \<and> d = d0 \<and> status_reads (trace w') = status_reads (trace w)
           \<and> (status_io (trace w') = status_io (trace w)
              \<or> status_io (trace w') = status_io (trace w) @ [EvOutb a EC_STATUS_PORT]))"
  using assms
  by (auto simp: read_hw_ram_def mutex_lock_def case_prod_beta Let_def
           split: if_splits dest: wait_ibf_ret wait_obf_ret)

section \<open>The handshake primitives poll within their budget\<close>

lemma poll_outcome_0: "poll_outcome 0 ready (- ETIMEDOUT) []"
  by (simp add: poll_outcome_def)

lemma poll_outcome_ready: "ready c \<Longrightarrow> poll_outcome (Suc n) ready 0 [c]"
  by (simp add: poll_outcome_def)

lemma poll_outcome_busy:
  assumes "\<not> ready c" and "poll_outcome n ready r cs"
  shows "poll_outcome (Suc n) ready r (c # cs)"
proof -
  from assms(2) consider
      pre d where "r = 0" "cs = pre @ [d]" "length pre < n" "ready d" "list_all (\<lambda>b. \<not> ready b) pre"
    | "r = - ETIMEDOUT" "length cs = n" "list_all (\<lambda>b. \<not> ready b) cs"
    by (auto simp: poll_outcome_def)
  then show ?thesis
  proof cases
    case 1
    then have "c # cs = (c # pre) @ [d]" "length (c # pre) < Suc n"
      "list_all (\<lambda>b. \<not> ready b) (c # pre)"
      using assms(1) by simp_all
    with 1 show ?thesis
      unfolding poll_outcome_def by blast
  next
    case 2
    with assms(1) show ?thesis
      by (simp add: poll_outcome_def)
  qed
qed

lemma wait_ibf_loop_polls:
  "\<exists>es. trace (snd (wait_ibf_loop K H n w)) = trace w @ es
     \<and> poll_outcome n (\<lambda>c. c AND 0x02 = 0) (fst (wait_ibf_loop K H n w)) (cmd_reads es)"
proof (induction n arbitrary: w)
  case 0
  show ?case by (simp add: poll_outcome_0)
next
  case (Suc n)
  obtain v w1 where i: "inb H EC_COMMAND_PORT w = (v, w1)"
    by (cases "inb H EC_COMMAND_PORT w")
  then have t1: "trace w1 = trace w @ [EvInb EC_COMMAND_PORT v]"
    using inb_trace [of H EC_COMMAND_PORT w] by simp
  show ?case
  proof (cases "v AND 0x02 = 0")
    case True
    with i t1 show ?thesis
      by (simp add: poll_outcome_ready)
  next
    case False
    let ?w2 = "udelay H (EC_UDELAY_TIME K) w1"
    from Suc.IH [of ?w2] obtain es where
      es: "trace (snd (wait_ibf_loop K H n ?w2)) = trace ?w2 @ es"
        "poll_outcome n (\<lambda>c. c AND 0x02 = 0) (fst (wait_ibf_loop K H n ?w2)) (cmd_reads es)"
      by blast
    have "poll_outcome (Suc n) (\<lambda>c. c AND 0x02 = 0) (fst (wait_ibf_loop K H n ?w2))
            (cmd_reads ([EvInb EC_COMMAND_PORT v, EvUdelay (EC_UDELAY_TIME K)] @ es))"
      using poll_outcome_busy [OF _ es(2), of v] False by simp
    moreover have "trace (snd (wait_ibf_loop K H n ?w2))
        = trace w @ [EvInb EC_COMMAND_PORT v, EvUdelay (EC_UDELAY_TIME K)] @ es"
      using es(1) t1 by simp
    ultimately show ?thesis
      using i False by (simp del: append.simps proj_Cons proj_append)
  qed
qed

lemma wait_obf_loop_polls:
  "\<exists>es. trace (snd (wait_obf_loop K H n w)) = trace w @ es
     \<and> poll_outcome n (\<lambda>c. c AND 0x01 \<noteq> 0) (fst (wait_obf_loop K H n w)) (cmd_reads es)"
proof (induction n arbitrary: w)
  case 0
  show ?case by (simp add: poll_outcome_0)
next
  case (Suc n)
  obtain v w1 where i: "inb H EC_COMMAND_PORT w = (v, w1)"
    by (cases "inb H EC_COMMAND_PORT w")
  then have t1: "trace w1 = trace w @ [EvInb EC_COMMAND_PORT v]"
    using inb_trace [of H EC_COMMAND_PORT w] by simp
  show ?case
  proof (cases "v AND 0x01 \<noteq> 0")
    case True
    with i t1 show ?thesis
      by (simp add: poll_outcome_ready)
  next
    case False
    let ?w2 = "udelay H (EC_UDELAY_TIME K) w1"
    from Suc.IH [of ?w2] obtain es where
      es: "trace (snd (wait_obf_loop K H n ?w2)) = trace ?w2 @ es"
        "poll_outcome n (\<lambda>c. c AND 0x01 \<noteq> 0) (fst (wait_obf_loop K H n ?w2)) (cmd_reads es)"
      by blast
    have "poll_outcome (Suc n) (\<lambda>c. c AND 0x01 \<noteq> 0) (fst (wait_obf_loop K H n ?w2))
            (cmd_reads ([EvInb EC_COMMAND_PORT v, EvUdelay (EC_UDELAY_TIME K)] @ es))"
      using poll_outcome_busy [OF _ es(2), of v] False by simp
    moreover have "trace (snd (wait_obf_loop K H n ?w2))
        = trace w @ [EvInb EC_COMMAND_PORT v, EvUdelay (EC_UDELAY_TIME K)] @ es"
      using es(1) t1 by simp
    ultimately show ?thesis
      using i False by (simp del: append.simps proj_Cons proj_append)
  qed
qed

lemma since_append: "trace w' = trace w @ es \<Longrightarrow> since w w' = es"
  by (simp add: since_def)

text \<open>
  Claim C8. \<^verbatim>\<open>wait_ibf\<close> polls the command port and returns 0 at the first poll whose
  bit 0x02 is clear; it returns \<open>- ETIMEDOUT\<close> when that bit was set in every one of
  the \<^verbatim>\<open>EC_MAX_TIMEOUT_COUNT\<close> polls. \<^verbatim>\<open>wait_obf\<close> does the same for bit 0x01 being
  set, with the same budget. Here \<open>cs\<close> are the bytes the call read from the command
  port, in order.
\<close>

theorem wait_ibf_wait_obf_outcome:
  "(let (r, w') = wait_ibf K H w; cs = cmd_reads (since w w') in
      r = 0 \<and> (\<exists>pre c. cs = pre @ [c] \<and> length pre < EC_MAX_TIMEOUT_COUNT K
                  \<and> c AND 0x02 = 0 \<and> list_all (\<lambda>b. b AND 0x02 \<noteq> 0) pre)
      \<or> r = - ETIMEDOUT \<and> length cs = EC_MAX_TIMEOUT_COUNT K
          \<and> list_all (\<lambda>b. b AND 0x02 \<noteq> 0) cs)
   \<and> (let (r, w') = wait_obf K H w; cs = cmd_reads (since w w') in
      r = 0 \<and> (\<exists>pre c. cs = pre @ [c] \<and> length pre < EC_MAX_TIMEOUT_COUNT K
                  \<and> c AND 0x01 \<noteq> 0 \<and> list_all (\<lambda>b. b AND 0x01 = 0) pre)
      \<or> r = - ETIMEDOUT \<and> length cs = EC_MAX_TIMEOUT_COUNT K
          \<and> list_all (\<lambda>b. b AND 0x01 = 0) cs)"
proof -
  obtain es where es: "trace (snd (wait_ibf K H w)) = trace w @ es"
    "poll_outcome (EC_MAX_TIMEOUT_COUNT K) (\<lambda>c. c AND 0x02 = 0) (fst (wait_ibf K H w)) (cmd_reads es)"
    using wait_ibf_loop_polls [of K H "EC_MAX_TIMEOUT_COUNT K" w] by (auto simp: wait_ibf_def)
  obtain es' where es': "trace (snd (wait_obf K H w)) = trace w @ es'"
    "poll_outcome (EC_MAX_TIMEOUT_COUNT K) (\<lambda>c. c AND 0x01 \<noteq> 0) (fst (wait_obf K H w)) (cmd_reads es')"
    using wait_obf_loop_polls [of K H "EC_MAX_TIMEOUT_COUNT K" w] by (auto simp: wait_obf_def)
  from es(1) have "since w (snd (wait_ibf K H w)) = es"
    by (rule since_append)
  moreover from es'(1) have "since w (snd (wait_obf K H w)) = es'"
    by (rule since_append)
  ultimately show ?thesis
    using es(2) es'(2) by (simp add: poll_outcome_def case_prod_beta)
qed

text \<open>
  On the scripted controller with a budget of three polls: a command port that reads
  "input buffer full" three times makes \<^verbatim>\<open>wait_ibf\<close> time out, and one that reports
  "output buffer full" at the third poll makes \<^verbatim>\<open>wait_obf\<close> succeed there.
\<close>

theorem wait_ibf_wait_obf_outcome_witness:
  "(fst (wait_ibf test_defs tape_hw (tape_world [2, 2, 2] [])) = - ETIMEDOUT
    \<and> cmd_reads (since (tape_world [2, 2, 2] [])
         (snd (wait_ibf test_defs tape_hw (tape_world [2, 2, 2] [])))) = [2, 2, 2]
    \<and> fst (wait_obf test_defs tape_hw (tape_world [2, 2, 2] [])) = - ETIMEDOUT
    \<and> fst (wait_ibf test_defs tape_hw (tape_world [0, 0, 1] [])) = 0
    \<and> cmd_reads (since (tape_world [0, 0, 1] [])
         (snd (wait_ibf test_defs tape_hw (tape_world [0, 0, 1] [])))) = [0]
    \<and> fst (wait_obf test_defs tape_hw (tape_world [0, 0, 1] [])) = 0
    \<and> cmd_reads (since (tape_world [0, 0, 1] [])
         (snd (wait_obf test_defs tape_hw (tape_world [0, 0, 1] [])))) = [0, 0, 1])
   \<and> poll_outcome (EC_MAX_TIMEOUT_COUNT test_defs) (\<lambda>c. c AND 0x01 \<noteq> 0)
        (fst (wait_obf test_defs tape_hw (tape_world [0, 0, 1] [])))
        (cmd_reads (since (tape_world [0, 0, 1] [])
           (snd (wait_obf test_defs tape_hw (tape_world [0, 0, 1] [])))))"
proof -
  have run: "fst (wait_ibf test_defs tape_hw (tape_world [2, 2, 2] [])) = - ETIMEDOUT
    \<and> cmd_reads (since (tape_world [2, 2, 2] [])
         (snd (wait_ibf test_defs tape_hw (tape_world [2, 2, 2] [])))) = [2, 2, 2]
    \<and> fst (wait_obf test_defs tape_hw (tape_world [2, 2, 2] [])) = - ETIMEDOUT
    \<and> fst (wait_ibf test_defs tape_hw (tape_world [0, 0, 1] [])) = 0
    \<and> cmd_reads (since (tape_world [0, 0, 1] [])
         (snd (wait_ibf test_defs tape_hw (tape_world [0, 0, 1] [])))) = [0]
    \<and> fst (wait_obf test_defs tape_hw (tape_world [0, 0, 1] [])) = 0
    \<and> cmd_reads (since (tape_world [0, 0, 1] [])
         (snd (wait_obf test_defs tape_hw (tape_world [0, 0, 1] [])))) = [0, 0, 1]"
    by code_simp
  have "poll_outcome (EC_MAX_TIMEOUT_COUNT test_defs) (\<lambda>c. c AND 0x01 \<noteq> 0)
        (fst (wait_obf test_defs tape_hw (tape_world [0, 0, 1] [])))
        (cmd_reads (since (tape_world [0, 0, 1] [])
           (snd (wait_obf test_defs tape_hw (tape_world [0, 0, 1] [])))))"
    using wait_ibf_wait_obf_outcome [of test_defs tape_hw "tape_world [0, 0, 1] []"]
    by (simp add: poll_outcome_def case_prod_beta Let_def)
  with run show ?thesis
    by (rule conjI)
qed

section \<open>Facts about the HW-RAM accessor and the completion poll\<close>

lemma ETIMEDOUT_neq_0 [simp]: "ETIMEDOUT \<noteq> 0" "0 \<noteq> ETIMEDOUT"
  by (simp_all add: ETIMEDOUT_def)

lemma write_hw_ram_Deadlock: "lock_held w \<Longrightarrow> write_hw_ram K H a d w = Inl Deadlock"
  by (simp add: write_hw_ram_def mutex_lock_def)

lemma read_hw_ram_returns:
  "\<not> lock_held w \<Longrightarrow> \<exists>r d w'. read_hw_ram K H a d0 w = Inr (r, d, w')"
  by (simp add: read_hw_ram_def mutex_lock_def case_prod_beta Let_def)

lemma write_hw_ram_returns:
  "\<not> lock_held w \<Longrightarrow> \<exists>r w'. write_hw_ram K H a d w = Inr (r, w')"
  by (simp add: write_hw_ram_def mutex_lock_def case_prod_beta Let_def)

lemma write_hw_ram_facts:
  assumes "write_hw_ram K H a d w = Inr (r, w')"
  shows "\<not> lock_held w \<and> \<not> lock_held w'
    \<and> lock_ops (trace w') = lock_ops (trace w) @ [EvLock, EvUnlock]
    \<and> status_reads (trace w') = status_reads (trace w)
    \<and> (r = 0 \<and> status_io (trace w') = status_io (trace w) @ [EvOutb a EC_STATUS_PORT, EvOutb d EC_STATUS_PORT]
       \<or> r = - ETIMEDOUT
           \<and> (status_io (trace w') = status_io (trace w)
              \<or> status_io (trace w') = status_io (trace w) @ [EvOutb a EC_STATUS_PORT]))"
  using assms
  by (auto simp: write_hw_ram_def mutex_lock_def case_prod_beta Let_def
           split: if_splits dest: wait_ibf_ret wait_obf_ret)

declare wait_smbus_loop.simps [simp del]

lemma replicate_pairs_Suc:
  "xs @ [EvLock, EvUnlock] @ concat (replicate k [EvLock, EvUnlock])
     = xs @ concat (replicate (Suc k) [EvLock, EvUnlock])"
  by simp

lemma wait_smbus_loop_facts:
  "wait_smbus_loop K H n w = Inr (r, w') \<Longrightarrow>
     \<not> lock_held w \<and> \<not> lock_held w'
     \<and> (\<exists>k. lock_ops (trace w') = lock_ops (trace w) @ concat (replicate k [EvLock, EvUnlock]))
     \<and> (\<exists>xs. status_io (trace w') = status_io (trace w) @ xs)
     \<and> (r = 0 \<and> (\<exists>v. status_reads (trace w') = status_reads (trace w) @ [v])
        \<or> r = - ETIMEDOUT \<and> status_reads (trace w') = status_reads (trace w))"
proof (induction n arbitrary: w)
  case 0
  from "0.prems" obtain r0 d w1 where
    rd: "read_hw_ram K H (EC_SMBUS_PROTOCOL K) 0xFF w = Inr (r0, d, w1)"
    by (subst (asm) wait_smbus_loop.simps) (auto split: sum.splits)
  note f = read_hw_ram_facts [OF rd]
  show ?case
  proof (cases "r0 = 0")
    case True
    with "0.prems" rd have "r = 0" "w' = w1"
      by (subst (asm) wait_smbus_loop.simps, simp)+
    with f True show ?thesis
      by (auto intro: exI [of _ "Suc 0"])
  next
    case False
    with f have d: "d = 0xFF" "r0 = - ETIMEDOUT" by auto
    with "0.prems" rd have "r = - ETIMEDOUT" "w' = udelay H (EC_UDELAY_TIME K) w1"
      by (subst (asm) wait_smbus_loop.simps, simp)+
    with f d show ?thesis
      by (auto intro: exI [of _ "Suc 0"])
  qed
next
  case (Suc n)
  from Suc.prems obtain r0 d w1 where
    rd: "read_hw_ram K H (EC_SMBUS_PROTOCOL K) 0xFF w = Inr (r0, d, w1)"
    by (subst (asm) wait_smbus_loop.simps) (auto split: sum.splits)
  note f = read_hw_ram_facts [OF rd]
  show ?case
  proof (cases "r0 = 0")
    case True
    with Suc.prems rd have "r = 0" "w' = w1"
      by (subst (asm) wait_smbus_loop.simps, simp)+
    with f True show ?thesis
      by (auto intro: exI [of _ "Suc 0"])
  next
    case False
    with f have d: "d = 0xFF" "r0 = - ETIMEDOUT" by auto
    let ?w2 = "udelay H (EC_UDELAY_TIME K) w1"
    from Suc.prems rd d have rec: "wait_smbus_loop K H n ?w2 = Inr (r, w')"
      by (subst (asm) wait_smbus_loop.simps) simp
    note ih = Suc.IH [OF rec]
    from ih obtain k where
      k: "lock_ops (trace w') = lock_ops (trace ?w2) @ concat (replicate k [EvLock, EvUnlock])"
      by blast
    from ih obtain xs where xs: "status_io (trace w') = status_io (trace ?w2) @ xs"
      by blast
    have "lock_ops (trace w') = lock_ops (trace w) @ concat (replicate (Suc k) [EvLock, EvUnlock])"
      using k f by simp
    moreover have "\<exists>ys. status_io (trace w') = status_io (trace w) @ ys"
      using xs f d by auto
    moreover have "r = 0 \<and> (\<exists>v. status_reads (trace w') = status_reads (trace w) @ [v])
        \<or> r = - ETIMEDOUT \<and> status_reads (trace w') = status_reads (trace w)"
      using ih f d by auto
    ultimately show ?thesis
      using ih f by blast
  qed
qed

section \<open>The controller that echoes writes\<close>

lemma ram_hw_outb_cmd:
  "hw_outb (ram_hw K) v EC_COMMAND_PORT c
     = c\<lparr>phase := (if v = EC_HW_RAM_READ K then ReadAddr
                     else if v = EC_HW_RAM_WRITE K then WriteAddr else Idle)\<rparr>"
  by (simp add: ram_hw_def)

lemma ram_hw_outb_data:
  "hw_outb (ram_hw K) v EC_STATUS_PORT c
     = (case phase c of
          Idle \<Rightarrow> c
        | ReadAddr \<Rightarrow> c\<lparr>phase := Idle, obuf := ram c v, obf := True\<rparr>
        | WriteAddr \<Rightarrow> c\<lparr>phase := WriteData v\<rparr>
        | WriteData a \<Rightarrow> c\<lparr>ram := (ram c)(a := v), phase := Idle\<rparr>)"
  by (simp add: ram_hw_def)

lemma ram_hw_inb_data: "hw_inb (ram_hw K) EC_STATUS_PORT c = (obuf c, c\<lparr>obf := False\<rparr>)"
  by (simp add: ram_hw_def)

lemma ram_inb_cmd:
  "inb (ram_hw K) EC_COMMAND_PORT w
     = (if obf (chip w) then 0x01 else 0x00,
        w\<lparr>trace := trace w @ [EvInb EC_COMMAND_PORT (if obf (chip w) then 0x01 else 0x00)]\<rparr>)"
  by (simp add: inb_def ram_hw_def)

lemma ram_wait_ibf:
  assumes "0 < EC_MAX_TIMEOUT_COUNT K"
  shows "wait_ibf K (ram_hw K) w
     = (0, w\<lparr>trace := trace w @ [EvInb EC_COMMAND_PORT (if obf (chip w) then 0x01 else 0x00)]\<rparr>)"
proof -
  from assms obtain m where "EC_MAX_TIMEOUT_COUNT K = Suc m"
    by (cases "EC_MAX_TIMEOUT_COUNT K") auto
  then show ?thesis
    by (simp add: wait_ibf_def ram_inb_cmd)
qed

lemma ram_wait_obf:
  assumes "0 < EC_MAX_TIMEOUT_COUNT K" and "obf (chip w)"
  shows "wait_obf K (ram_hw K) w = (0, w\<lparr>trace := trace w @ [EvInb EC_COMMAND_PORT 0x01]\<rparr>)"
proof -
  from assms obtain m where "EC_MAX_TIMEOUT_COUNT K = Suc m"
    by (cases "EC_MAX_TIMEOUT_COUNT K") auto
  with assms(2) show ?thesis
    by (simp add: wait_obf_def ram_inb_cmd)
qed

lemma ram_write_hw_ram:
  assumes "0 < EC_MAX_TIMEOUT_COUNT K" and "EC_HW_RAM_READ K \<noteq> EC_HW_RAM_WRITE K"
    and "\<not> lock_held w"
  shows "\<exists>w'. write_hw_ram K (ram_hw K) A V w = Inr (0, w') \<and> \<not> lock_held w'
           \<and> ram (chip w') = (ram (chip w))(A := V)"
  using assms
  by (simp add: write_hw_ram_def mutex_lock_def ram_wait_ibf outb_def mutex_unlock_def
      ram_hw_outb_cmd ram_hw_outb_data)

lemma ram_read_hw_ram:
  assumes "0 < EC_MAX_TIMEOUT_COUNT K" and "\<not> lock_held w"
  shows "\<exists>w'. read_hw_ram K (ram_hw K) A d w = Inr (0, ram (chip w) A, w') \<and> \<not> lock_held w'
           \<and> ram (chip w') = ram (chip w)"
  using assms
  by (simp add: read_hw_ram_def mutex_lock_def ram_wait_ibf ram_wait_obf outb_def inb_def
      mutex_unlock_def ram_hw_outb_cmd ram_hw_outb_data ram_hw_inb_data)

section \<open>Runs of the HW-RAM accessor inside a transaction\<close>

lemma paired_append [simp]: "paired xs \<Longrightarrow> paired (xs @ ys) = paired ys"
  by (induction xs rule: paired.induct) simp_all

lemma paired_replicate [simp]: "paired (concat (replicate k [EvLock, EvUnlock]))"
  by (induction k) simp_all

lemma trace_since: "trace w' = trace w @ es \<Longrightarrow> trace w' = trace w @ since w w'"
  by (simp add: since_def)

lemma proj_since: "proj f (trace w') = proj f (trace w) @ xs \<Longrightarrow> trace w' = trace w @ since w w'
  \<Longrightarrow> proj f (since w w') = xs"
  by (metis proj_append same_append_eq)

lemma wait_ibf_trace: "\<exists>es. trace (snd (wait_ibf K H w)) = trace w @ es"
  using wait_ibf_loop_polls [of K H "EC_MAX_TIMEOUT_COUNT K" w] by (auto simp: wait_ibf_def)

lemma wait_obf_trace: "\<exists>es. trace (snd (wait_obf K H w)) = trace w @ es"
  using wait_obf_loop_polls [of K H "EC_MAX_TIMEOUT_COUNT K" w] by (auto simp: wait_obf_def)

lemma wait_ibf_since:
  "trace (snd (wait_ibf K H w)) = trace w @ since w (snd (wait_ibf K H w))"
  using wait_ibf_trace [of K H w] by (auto dest: trace_since)

lemma wait_obf_since:
  "trace (snd (wait_obf K H w)) = trace w @ since w (snd (wait_obf K H w))"
  using wait_obf_trace [of K H w] by (auto dest: trace_since)

lemma write_hw_ram_trace:
  "write_hw_ram K H a d w = Inr (r, w') \<Longrightarrow> \<exists>es. trace w' = trace w @ es"
  by (auto simp: write_hw_ram_def mutex_lock_def case_prod_beta Let_def wait_ibf_since
           split: if_splits)

lemma read_hw_ram_trace:
  "read_hw_ram K H a d0 w = Inr (r, d, w') \<Longrightarrow> \<exists>es. trace w' = trace w @ es"
  by (auto simp: read_hw_ram_def mutex_lock_def case_prod_beta Let_def wait_ibf_since
           wait_obf_since split: if_splits)

lemma wait_smbus_loop_trace:
  "wait_smbus_loop K H n w = Inr (r, w') \<Longrightarrow> \<exists>es. trace w' = trace w @ es"
proof (induction n arbitrary: w)
  case 0
  then show ?case
    by (subst (asm) wait_smbus_loop.simps)
       (auto split: sum.splits if_splits dest!: read_hw_ram_trace)
next
  case (Suc n)
  from Suc.prems show ?case
    by (subst (asm) wait_smbus_loop.simps)
       (auto split: sum.splits if_splits dest!: read_hw_ram_trace Suc.IH)
qed


lemma bindf_write_hw_ram [simp]:
  "\<not> lock_held w \<Longrightarrow> bindf (write_hw_ram K H a d w) f = f (projr (write_hw_ram K H a d w))"
  using write_hw_ram_returns [of w K H a d] by (auto simp: bindf_def)

lemma bindf_read_hw_ram [simp]:
  "\<not> lock_held w \<Longrightarrow> bindf (read_hw_ram K H a d w) f = f (projr (read_hw_ram K H a d w))"
  using read_hw_ram_returns [of w K H a d] by (auto simp: bindf_def)

lemma write_hw_ram_run:
  fixes K :: ec_defs and H :: "'s ec_hw" and a d :: uchar and w :: "'s world"
  assumes "\<not> lock_held w"
  defines "r \<equiv> fst (projr (write_hw_ram K H a d w))"
    and "W \<equiv> snd (projr (write_hw_ram K H a d w))"
  shows "\<not> lock_held W"
    and "trace W = trace w @ since w W"
    and "status_reads (since w W) = []"
    and "lock_ops (since w W) = [EvLock, EvUnlock]"
    and "r = 0 \<Longrightarrow> status_io (since w W) = [EvOutb a EC_STATUS_PORT, EvOutb d EC_STATUS_PORT]"
    and "r \<noteq> 0 \<Longrightarrow> r = - ETIMEDOUT"
proof -
  from assms(1) have run: "write_hw_ram K H a d w = Inr (r, W)"
    using write_hw_ram_returns [of w K H a d] by (auto simp: r_def W_def)
  note f = write_hw_ram_facts [OF run]
  from write_hw_ram_trace [OF run] show t: "trace W = trace w @ since w W"
    by (auto dest: trace_since)
  from f show "\<not> lock_held W" by simp
  from f t show "status_reads (since w W) = []"
    by (metis append_Nil2 proj_since)
  from f t show "lock_ops (since w W) = [EvLock, EvUnlock]"
    by (metis proj_since)
  from f t show "r = 0 \<Longrightarrow> status_io (since w W) = [EvOutb a EC_STATUS_PORT, EvOutb d EC_STATUS_PORT]"
    by (metis ETIMEDOUT_neq_0(2) neg_equal_0_iff_equal proj_since)
  from f show "r \<noteq> 0 \<Longrightarrow> r = - ETIMEDOUT" by auto
qed

lemma read_hw_ram_run:
  fixes K :: ec_defs and H :: "'s ec_hw" and a d0 :: uchar and w :: "'s world"
  assumes "\<not> lock_held w"
  defines "r \<equiv> fst (projr (read_hw_ram K H a d0 w))"
    and "d \<equiv> fst (snd (projr (read_hw_ram K H a d0 w)))"
    and "W \<equiv> snd (snd (projr (read_hw_ram K H a d0 w)))"
  shows "\<not> lock_held W"
    and "trace W = trace w @ since w W"
    and "status_reads (since w W) = (if r = 0 then [d] else [])"
    and "lock_ops (since w W) = [EvLock, EvUnlock]"
    and "r = 0 \<Longrightarrow> status_io (since w W) = [EvOutb a EC_STATUS_PORT, EvInb EC_STATUS_PORT d]"
    and "r \<noteq> 0 \<Longrightarrow> r = - ETIMEDOUT"
    and "r \<noteq> 0 \<Longrightarrow> d = d0"
proof -
  from assms(1) have run: "read_hw_ram K H a d0 w = Inr (r, d, W)"
    using read_hw_ram_returns [of w K H a d0] by (auto simp: r_def W_def d_def)
  note f = read_hw_ram_facts [OF run]
  from read_hw_ram_trace [OF run] show t: "trace W = trace w @ since w W"
    by (auto dest: trace_since)
  from f show "\<not> lock_held W" by simp
  from f have "status_reads (trace W) = status_reads (trace w) @ (if r = 0 then [d] else [])"
    by auto
  then show "status_reads (since w W) = (if r = 0 then [d] else [])"
    using t by (rule proj_since)
  from f t show "lock_ops (since w W) = [EvLock, EvUnlock]"
    by (metis proj_since)
  from f t show "r = 0 \<Longrightarrow> status_io (since w W) = [EvOutb a EC_STATUS_PORT, EvInb EC_STATUS_PORT d]"
    by (metis ETIMEDOUT_neq_0(2) neg_equal_0_iff_equal proj_since)
  from f show "r \<noteq> 0 \<Longrightarrow> r = - ETIMEDOUT" by auto
  from f show "r \<noteq> 0 \<Longrightarrow> d = d0" by auto
qed

lemma wait_smbus_loop_returns:
  "\<not> lock_held w \<Longrightarrow> \<exists>r w'. wait_smbus_loop K H n w = Inr (r, w')"
proof (induction n arbitrary: w)
  case 0
  from read_hw_ram_returns [OF "0.prems"]
  obtain r0 d w1 where "read_hw_ram K H (EC_SMBUS_PROTOCOL K) 0xFF w = Inr (r0, d, w1)"
    by blast
  then show ?case
    by (subst wait_smbus_loop.simps) auto
next
  case (Suc n)
  from read_hw_ram_returns [OF Suc.prems]
  obtain r0 d w1 where rd: "read_hw_ram K H (EC_SMBUS_PROTOCOL K) 0xFF w = Inr (r0, d, w1)"
    by blast
  from read_hw_ram_facts [OF rd] have "\<not> lock_held (udelay H (EC_UDELAY_TIME K) w1)"
    by simp
  from Suc.IH [OF this] rd show ?case
    by (subst wait_smbus_loop.simps) auto
qed

lemma bindf_wait_smbus_protocol_finish [simp]:
  "\<not> lock_held w \<Longrightarrow>
     bindf (wait_smbus_protocol_finish K H w) f = f (projr (wait_smbus_protocol_finish K H w))"
  using wait_smbus_loop_returns [of w K H 1000]
  by (auto simp: bindf_def wait_smbus_protocol_finish_def)

lemma wait_smbus_protocol_finish_run:
  fixes K :: ec_defs and H :: "'s ec_hw" and w :: "'s world"
  assumes "\<not> lock_held w"
  defines "r \<equiv> fst (projr (wait_smbus_protocol_finish K H w))"
    and "W \<equiv> snd (projr (wait_smbus_protocol_finish K H w))"
  shows "\<not> lock_held W"
    and "trace W = trace w @ since w W"
    and "status_reads (since w W) = (if r = 0 then [smbus_polled K H w] else [])"
    and "paired (lock_ops (since w W))"
    and "r \<noteq> 0 \<Longrightarrow> r = - ETIMEDOUT"
proof -
  from assms(1) have run: "wait_smbus_loop K H 1000 w = Inr (r, W)"
    using wait_smbus_loop_returns [of w K H 1000]
    by (auto simp: r_def W_def wait_smbus_protocol_finish_def)
  note f = wait_smbus_loop_facts [OF run]
  from wait_smbus_loop_trace [OF run] show t: "trace W = trace w @ since w W"
    by (auto dest: trace_since)
  from f show "\<not> lock_held W" by simp
  from f obtain k where "lock_ops (trace W) = lock_ops (trace w) @ concat (replicate k [EvLock, EvUnlock])"
    by blast
  from proj_since [OF this t] show "paired (lock_ops (since w W))"
    by simp
  from f show "r \<noteq> 0 \<Longrightarrow> r = - ETIMEDOUT" by auto
  show "status_reads (since w W) = (if r = 0 then [smbus_polled K H w] else [])"
  proof (cases "r = 0")
    case True
    with f obtain v where "status_reads (trace W) = status_reads (trace w) @ [v]"
      by auto
    from proj_since [OF this t] True show ?thesis
      by (simp add: smbus_polled_def W_def)
  next
    case False
    with f have "status_reads (trace W) = status_reads (trace w) @ []"
      by auto
    from proj_since [OF this t] False show ?thesis
      by simp
  qed
qed

lemmas smbus_run =
  write_hw_ram_run(1,2,3,4) read_hw_ram_run(1,2,3,4) wait_smbus_protocol_finish_run(1,2,3,4)

lemma smbus_read_byte_Deadlock:
  "lock_held w \<Longrightarrow> smbus_read_byte K H (Some req) w = Inl Deadlock"
  by (simp add: smbus_read_byte_def bindf_def write_hw_ram_Deadlock)

lemma smbus_read_word_Deadlock:
  "lock_held w \<Longrightarrow> smbus_read_word K H (Some req) w = Inl Deadlock"
  by (simp add: smbus_read_word_def bindf_def write_hw_ram_Deadlock)

lemma smbus_write_byte_Deadlock:
  "lock_held w \<Longrightarrow> smbus_write_byte K H (Some req) w = Inl Deadlock"
  by (simp add: smbus_write_byte_def bindf_def write_hw_ram_Deadlock)

lemma smbus_read_byte_status:
  assumes "smbus_read_byte K H (Some req) w = Inr (r, ptr', w')"
    and "status_reads (trace w') = status_reads (trace w) @ p # s # rest"
    and "s \<noteq> 0x80"
  shows "r = 0 \<and> ptr' = Some req \<and> rest = []"
proof -
  have u: "\<not> lock_held w"
    using assms(1) smbus_read_byte_Deadlock [of w K H req] by auto
  show ?thesis
    using assms u
    by (auto simp add: smbus_read_byte_def case_prod_beta Let_def smbus_run
        split: if_splits)
qed

lemma smbus_read_word_status:
  assumes "smbus_read_word K H (Some req) w = Inr (r, ptr', w')"
    and "status_reads (trace w') = status_reads (trace w) @ p # s # rest"
    and "s \<noteq> 0x80"
  shows "r = 0 \<and> ptr' = Some req \<and> rest = []"
proof -
  have u: "\<not> lock_held w"
    using assms(1) smbus_read_word_Deadlock [of w K H req] by auto
  show ?thesis
    using assms u
    by (auto simp add: smbus_read_word_def case_prod_beta Let_def smbus_run
        split: if_splits)
qed

lemma smbus_write_byte_status:
  assumes "smbus_write_byte K H (Some req) w = Inr (r, w')"
    and "status_reads (trace w') = status_reads (trace w) @ p # s # rest"
    and "s \<noteq> 0x80"
  shows "r = 0 \<and> rest = []"
proof -
  have u: "\<not> lock_held w"
    using assms(1) smbus_write_byte_Deadlock [of w K H req] by auto
  show ?thesis
    using assms u
    by (auto simp add: smbus_write_byte_def case_prod_beta Let_def smbus_run
        split: if_splits)
qed

lemma suffix_rev_prefix: "suffix xs ys \<longleftrightarrow> prefix (rev xs) (rev ys)"
  by (simp add: suffix_to_prefix)

lemma unlock_after_pairs_append [simp]:
  "paired xs \<Longrightarrow> unlock_after_pairs (xs @ ys) = unlock_after_pairs ys"
  by (induction xs rule: paired.induct) simp_all

lemma unlock_after_pairs_split:
  "unlock_after_pairs xs \<Longrightarrow> \<exists>ps. paired ps \<and> xs = ps @ [EvUnlock]"
proof (induction xs rule: unlock_after_pairs.induct)
  case 1
  have "paired [] \<and> [EvUnlock] = [] @ [EvUnlock]" by simp
  then show ?case by blast
next
  case (2 es)
  then obtain ps where "paired ps" "es = ps @ [EvUnlock]"
    by auto
  then have "paired (EvLock # EvUnlock # ps)
      \<and> EvLock # EvUnlock # es = (EvLock # EvUnlock # ps) @ [EvUnlock]"
    by simp
  then show ?case by blast
qed simp_all

section \<open>Facts about the indexed protocols\<close>

lemma wait_ibf_since_blind:
  "poll_blind f \<Longrightarrow> proj f (since w (snd (wait_ibf K H w))) = []"
  using wait_ibf_proj [of f K H w] wait_ibf_since [of K H w]
  by (metis append_Nil2 proj_since)

lemma wait_obf_since_blind:
  "poll_blind f \<Longrightarrow> proj f (since w (snd (wait_obf K H w))) = []"
  using wait_obf_proj [of f K H w] wait_obf_since [of K H w]
  by (metis append_Nil2 proj_since)

lemmas wait_since = wait_ibf_since wait_obf_since wait_ibf_since_blind wait_obf_since_blind

lemma read_ad_value_echo:
  assumes "read_ad_value K H hwpin multi w = Inr (r, w')"
    and "status_reads (trace w') = status_reads (trace w) @ 0xFF # rest"
  shows "r = - 1 \<and> rest = [] \<and> suffix [(EC_STATUS_PORT, 0xFF)] (port_reads (trace w'))"
  using assms
  by (auto simp: read_ad_value_def mutex_lock_def case_prod_beta Let_def wait_since
        suffix_rev_prefix simp del: wait_ibf_proj wait_obf_proj split: if_splits)

lemma read_gpio_status_echo:
  assumes "read_gpio_status K H pin pv w = Inr (r, pv', w')"
    and "status_reads (trace w') = status_reads (trace w) @ 0xFF # rest"
  shows "r = - 1 \<and> rest = [] \<and> suffix [(EC_STATUS_PORT, 0xFF)] (port_reads (trace w'))"
  using assms
  by (auto simp: read_gpio_status_def mutex_lock_def case_prod_beta Let_def wait_since
        suffix_rev_prefix simp del: wait_ibf_proj wait_obf_proj split: if_splits)

lemma write_gpio_status_echo:
  assumes "write_gpio_status K H pin v w = Inr (r, w')"
    and "status_reads (trace w') = status_reads (trace w) @ 0xFF # rest"
  shows "r = - 1 \<and> rest = [] \<and> suffix [(EC_STATUS_PORT, 0xFF)] (port_reads (trace w'))"
  using assms
  by (auto simp: write_gpio_status_def mutex_lock_def case_prod_beta Let_def wait_since
        suffix_rev_prefix simp del: wait_ibf_proj wait_obf_proj split: if_splits)

lemma read_gpio_dir_echo:
  assumes "read_gpio_dir K H pin pv w = Inr (r, pv', w')"
    and "status_reads (trace w') = status_reads (trace w) @ 0xFF # rest"
  shows "r = - 1 \<and> rest = [] \<and> suffix [(EC_STATUS_PORT, 0xFF)] (port_reads (trace w'))"
  using assms
  by (auto simp: read_gpio_dir_def mutex_lock_def case_prod_beta Let_def wait_since
        suffix_rev_prefix simp del: wait_ibf_proj wait_obf_proj split: if_splits)

lemma write_gpio_dir_echo:
  assumes "write_gpio_dir K H pin v w = Inr (r, w')"
    and "status_reads (trace w') = status_reads (trace w) @ 0xFF # rest"
  shows "r = - 1 \<and> rest = [] \<and> suffix [(EC_STATUS_PORT, 0xFF)] (port_reads (trace w'))"
  using assms
  by (auto simp: write_gpio_dir_def mutex_lock_def case_prod_beta Let_def wait_since
        suffix_rev_prefix simp del: wait_ibf_proj wait_obf_proj split: if_splits)


section \<open>The arithmetic of the AD sample\<close>








section \<open>Facts about the table enumeration\<close>

lemma uchar_and_ff [simp]: "(v :: uchar) AND 0xFF = v"
proof -
  have "(0xFF :: uchar) = - 1" by simp
  then show ?thesis by (simp only: and.right_neutral)
qed

lemma Dynamic_Tab_update_all [simp]:
  "(x :: Dynamic_Tab)\<lparr>DeviceID := d, HWPinNumber := p\<rparr> = \<lparr>DeviceID = d, HWPinNumber = p\<rparr>"
  by (cases x) simp

lemma tab_item_trace:
  "tab_item K H i tbl w = (res, tbl', w') \<Longrightarrow> \<exists>es. trace w' = trace w @ es"
  by (auto simp add: tab_item_def case_prod_beta Let_def wait_ibf_since wait_obf_since
        split: if_splits)

lemma tab_item_next:
  assumes "tab_item K H i tbl w = (None, tbl', w')" and "i < length tbl"
  shows "lock_held w' = lock_held w
    \<and> (\<exists>e p d. e \<noteq> 0xFF \<and> p \<noteq> 0xFF
          \<and> status_reads (trace w') = status_reads (trace w) @ [e, p, d]
          \<and> tbl' = tbl[i := \<lparr>DeviceID = d, HWPinNumber = p\<rparr>])"
  using assms
  by (auto simp add: tab_item_def case_prod_beta Let_def split: if_splits)

lemma tab_item_abort:
  assumes "tab_item K H i tbl w = (Some r, tbl', w')"
    and "status_reads (trace w') = status_reads (trace w) @ concat (map answer_bytes items) @ 0xFF # rest"
  shows "items = [] \<and> rest = [] \<and> r = - EINVAL \<and> tbl' = tbl \<and> \<not> lock_held w'
    \<and> suffix [(EC_STATUS_PORT, 0xFF)] (port_reads (trace w'))"
proof (cases items)
  case Nil
  with assms(1,2) show ?thesis
    by (auto simp add: tab_item_def case_prod_beta Let_def wait_since
        suffix_rev_prefix simp del: wait_ibf_proj wait_obf_proj split: if_splits)
next
  case (Cons a as)
  obtain e p d where a: "a = (e, p, d)" by (cases a)
  with assms(1,2) Cons show ?thesis
    by (auto simp add: tab_item_def case_prod_beta Let_def split: if_splits)
qed

declare tbl_init_loop.simps [simp del] tab_loop.simps [simp del]

lemma tbl_init_loop_eq:
  "i \<le> EC_MAX_TBL_NUM K \<Longrightarrow> length tbl = EC_MAX_TBL_NUM K \<Longrightarrow>
     tbl_init_loop K i tbl
       = take i tbl @ replicate (EC_MAX_TBL_NUM K - i) \<lparr>DeviceID = 0xFF, HWPinNumber = 0xFF\<rparr>"
proof (induction "EC_MAX_TBL_NUM K - i" arbitrary: i tbl)
  case 0
  then show ?case
    by (subst tbl_init_loop.simps) simp
next
  case (Suc n)
  let ?s = "\<lparr>DeviceID = 0xFF, HWPinNumber = 0xFF\<rparr> :: Dynamic_Tab"
  from Suc.hyps(2) have lt: "i < EC_MAX_TBL_NUM K" by simp
  with Suc.prems have il: "i < length tbl" by simp
  have n: "n = EC_MAX_TBL_NUM K - Suc i" using Suc.hyps(2) by simp
  have "tbl_init_loop K i tbl = tbl_init_loop K (Suc i) (tbl[i := ?s])"
    using lt by (subst tbl_init_loop.simps) simp
  also have "\<dots> = take (Suc i) (tbl[i := ?s]) @ replicate (EC_MAX_TBL_NUM K - Suc i) ?s"
    using lt Suc.prems by (intro Suc.hyps(1) [OF n]) simp_all
  also have "take (Suc i) (tbl[i := ?s]) = take i tbl @ [?s]"
    using il by (simp add: take_Suc_conv_app_nth)
  also have "(take i tbl @ [?s]) @ replicate (EC_MAX_TBL_NUM K - Suc i) ?s
      = take i tbl @ replicate (EC_MAX_TBL_NUM K - i) ?s"
    using lt by (simp add: Suc_diff_Suc replicate_Suc [symmetric] del: replicate_Suc)
  finally show ?case .
qed

lemma tab_loop_done:
  "\<not> i < EC_MAX_TBL_NUM K \<Longrightarrow> tab_loop K H i tbl w = (0, tbl, mutex_unlock w)"
  by (subst tab_loop.simps) simp

lemma tab_loop_abort:
  "i < EC_MAX_TBL_NUM K \<Longrightarrow> tab_item K H i tbl w = (Some r, tbl1, w1) \<Longrightarrow>
     tab_loop K H i tbl w = (r, tbl1, w1)"
  by (subst tab_loop.simps) simp

lemma tab_loop_next:
  "i < EC_MAX_TBL_NUM K \<Longrightarrow> tab_item K H i tbl w = (None, tbl1, w1) \<Longrightarrow>
     tab_loop K H i tbl w = tab_loop K H (Suc i) tbl1 w1"
  by (subst tab_loop.simps) simp

lemma tab_loop_trace:
  "tab_loop K H i tbl w = (r, tbl', w') \<Longrightarrow> \<exists>es. trace w' = trace w @ es"
proof (induction "EC_MAX_TBL_NUM K - i" arbitrary: i tbl w)
  case 0
  then show ?case
    by (auto simp add: tab_loop_done)
next
  case (Suc n)
  from Suc.hyps(2) have lt: "i < EC_MAX_TBL_NUM K" by simp
  have n: "n = EC_MAX_TBL_NUM K - Suc i" using Suc.hyps(2) by simp
  obtain res tbl1 w1 where it: "tab_item K H i tbl w = (res, tbl1, w1)"
    by (cases "tab_item K H i tbl w")
  from tab_item_trace [OF it] obtain es where es: "trace w1 = trace w @ es"
    by blast
  show ?case
  proof (cases res)
    case None
    with it lt Suc.prems have "tab_loop K H (Suc i) tbl1 w1 = (r, tbl', w')"
      by (simp add: tab_loop_next)
    from Suc.hyps(1) [OF n this] es show ?thesis
      by auto
  next
    case (Some r0)
    with it lt Suc.prems es show ?thesis
      by (simp add: tab_loop_abort)
  qed
qed

lemma tab_loop_echo:
  assumes "tab_loop K H i tbl w = (r, tbl', w')"
    and "length tbl = EC_MAX_TBL_NUM K"
    and "status_reads (trace w') = status_reads (trace w) @ concat (map answer_bytes items) @ 0xFF # rest"
  shows "r = - EINVAL \<and> rest = [] \<and> i + length items < EC_MAX_TBL_NUM K
    \<and> list_all answer_defined items
    \<and> tbl' = take i tbl @ map answer_entry items @ drop (i + length items) tbl
    \<and> \<not> lock_held w' \<and> suffix [(EC_STATUS_PORT, 0xFF)] (port_reads (trace w'))"
  using assms
proof (induction items arbitrary: i tbl w)
  case Nil
  have lt: "i < EC_MAX_TBL_NUM K"
    using Nil.prems(1,3) by (cases "i < EC_MAX_TBL_NUM K") (auto simp: tab_loop_done)
  obtain res tbl1 w1 where it: "tab_item K H i tbl w = (res, tbl1, w1)"
    by (cases "tab_item K H i tbl w")
  show ?case
  proof (cases res)
    case None
    from it None lt Nil.prems(1) have rec: "tab_loop K H (Suc i) tbl1 w1 = (r, tbl', w')"
      by (simp add: tab_loop_next)
    from tab_loop_trace [OF rec] obtain es where "trace w' = trace w1 @ es"
      by blast
    then have "status_reads (trace w') = status_reads (trace w1) @ status_reads es"
      by simp
    with tab_item_next [OF it [unfolded None]] lt Nil.prems(2,3) show ?thesis
      by auto
  next
    case (Some r0)
    with it lt Nil.prems(1) have "r = r0" "tbl' = tbl1" "w' = w1"
      by (simp_all add: tab_loop_abort)
    with tab_item_abort [OF it [unfolded Some], of "[]" rest] Nil.prems(3) lt show ?thesis
      by simp
  qed
next
  case (Cons a as)
  obtain e p d where a: "a = (e, p, d)" by (cases a)
  have lt: "i < EC_MAX_TBL_NUM K"
    using Cons.prems(1,3) by (cases "i < EC_MAX_TBL_NUM K") (auto simp: tab_loop_done)
  obtain res tbl1 w1 where it: "tab_item K H i tbl w = (res, tbl1, w1)"
    by (cases "tab_item K H i tbl w")
  show ?case
  proof (cases res)
    case None
    from it None lt Cons.prems(1) have rec: "tab_loop K H (Suc i) tbl1 w1 = (r, tbl', w')"
      by (simp add: tab_loop_next)
    from tab_loop_trace [OF rec] obtain es where "trace w' = trace w1 @ es"
      by blast
    then have ext: "status_reads (trace w') = status_reads (trace w1) @ status_reads es"
      by simp
    from tab_item_next [OF it [unfolded None]] lt Cons.prems(2) obtain e' p' d' where
      n: "status_reads (trace w1) = status_reads (trace w) @ [e', p', d']"
        "tbl1 = tbl[i := \<lparr>DeviceID = d', HWPinNumber = p'\<rparr>]"
        "e' \<noteq> 0xFF" "p' \<noteq> 0xFF"
      by auto
    from ext n(1) Cons.prems(3) a have eq: "e' = e" "p' = p" "d' = d"
      "status_reads es = concat (map answer_bytes as) @ 0xFF # rest"
      by simp_all
    have reads1: "status_reads (trace w') = status_reads (trace w1) @ concat (map answer_bytes as) @ 0xFF # rest"
      using ext eq(4) by simp
    have len1: "length tbl1 = EC_MAX_TBL_NUM K"
      using n(2) Cons.prems(2) by simp
    note ih = Cons.IH [OF rec len1 reads1]
    have "answer_defined a"
      using n(3,4) eq a by simp
    moreover have "take (Suc i) tbl1 = take i tbl @ [answer_entry a]"
      using n(2) eq a lt Cons.prems(2) by (simp add: take_Suc_conv_app_nth)
    moreover have "drop (Suc i + length as) tbl1 = drop (i + length (a # as)) tbl"
      using n(2) by simp
    ultimately show ?thesis
      using ih by simp
  next
    case (Some r0)
    with it lt Cons.prems(1) have "r = r0" "tbl' = tbl1" "w' = w1"
      by (simp_all add: tab_loop_abort)
    with tab_item_abort [OF it [unfolded Some], of "a # as" rest] Cons.prems(3) show ?thesis
      by simp
  qed
qed

section \<open>The indexed protocols on the scripted controller\<close>

text \<open>
  With an empty command tape the scripted controller is always ready, so that every
  handshake wait returns at its first poll and the operations run up to their reads of
  the data port.
\<close>

lemma tape_outb: "outb tape_hw v p w = w\<lparr>trace := trace w @ [EvOutb v p]\<rparr>"
  by (simp add: outb_def tape_hw_def)

lemma tape_inb_cmd:
  "fst (chip w) = [] \<Longrightarrow>
     inb tape_hw EC_COMMAND_PORT w = (0x01, w\<lparr>trace := trace w @ [EvInb EC_COMMAND_PORT 0x01]\<rparr>)"
  by (cases "chip w") (simp add: inb_def tape_hw_def)

lemma tape_inb_data:
  "chip w = (cs, d # ds) \<Longrightarrow>
     inb tape_hw EC_STATUS_PORT w
       = (d, w\<lparr>chip := (cs, ds), trace := trace w @ [EvInb EC_STATUS_PORT d]\<rparr>)"
  by (simp add: inb_def tape_hw_def)

lemma tape_wait_ibf:
  assumes "0 < EC_MAX_TIMEOUT_COUNT K" and "fst (chip w) = []"
  shows "wait_ibf K tape_hw w = (0, w\<lparr>trace := trace w @ [EvInb EC_COMMAND_PORT 0x01]\<rparr>)"
proof -
  from assms(1) obtain m where "EC_MAX_TIMEOUT_COUNT K = Suc m"
    by (cases "EC_MAX_TIMEOUT_COUNT K") auto
  with assms(2) show ?thesis
    by (simp add: wait_ibf_def tape_inb_cmd)
qed

lemma tape_wait_obf:
  assumes "0 < EC_MAX_TIMEOUT_COUNT K" and "fst (chip w) = []"
  shows "wait_obf K tape_hw w = (0, w\<lparr>trace := trace w @ [EvInb EC_COMMAND_PORT 0x01]\<rparr>)"
proof -
  from assms(1) obtain m where "EC_MAX_TIMEOUT_COUNT K = Suc m"
    by (cases "EC_MAX_TIMEOUT_COUNT K") auto
  with assms(2) show ?thesis
    by (simp add: wait_obf_def tape_inb_cmd)
qed

lemmas tape_run = tape_outb tape_inb_data tape_wait_ibf tape_wait_obf mutex_lock_def mutex_unlock_def

lemma tape_read_ad_value_echo:
  assumes "0 < EC_MAX_TIMEOUT_COUNT K" and "\<not> lock_held w" and "chip w = ([], 0xFF # ds)"
  shows "\<exists>w'. read_ad_value K tape_hw pin multi w = Inr (- 1, w') \<and> chip w' = ([], ds)
    \<and> \<not> lock_held w' \<and> status_reads (trace w') = status_reads (trace w) @ [0xFF]"
  using assms by (simp add: read_ad_value_def tape_run)

lemma tape_read_gpio_status_echo:
  assumes "0 < EC_MAX_TIMEOUT_COUNT K" and "\<not> lock_held w" and "chip w = ([], 0xFF # ds)"
  shows "\<exists>w'. read_gpio_status K tape_hw pin pv w = Inr (- 1, pv, w') \<and> chip w' = ([], ds)
    \<and> \<not> lock_held w' \<and> status_reads (trace w') = status_reads (trace w) @ [0xFF]"
  using assms by (simp add: read_gpio_status_def tape_run)

lemma tape_write_gpio_status_echo:
  assumes "0 < EC_MAX_TIMEOUT_COUNT K" and "\<not> lock_held w" and "chip w = ([], 0xFF # ds)"
  shows "\<exists>w'. write_gpio_status K tape_hw pin v w = Inr (- 1, w') \<and> chip w' = ([], ds)
    \<and> \<not> lock_held w' \<and> status_reads (trace w') = status_reads (trace w) @ [0xFF]"
  using assms by (simp add: write_gpio_status_def tape_run)

lemma tape_read_gpio_dir_echo:
  assumes "0 < EC_MAX_TIMEOUT_COUNT K" and "\<not> lock_held w" and "chip w = ([], 0xFF # ds)"
  shows "\<exists>w'. read_gpio_dir K tape_hw pin pv w = Inr (- 1, pv, w') \<and> chip w' = ([], ds)
    \<and> \<not> lock_held w' \<and> status_reads (trace w') = status_reads (trace w) @ [0xFF]"
  using assms by (simp add: read_gpio_dir_def tape_run)

lemma tape_write_gpio_dir_echo:
  assumes "0 < EC_MAX_TIMEOUT_COUNT K" and "\<not> lock_held w" and "chip w = ([], 0xFF # ds)"
  shows "\<exists>w'. write_gpio_dir K tape_hw pin v w = Inr (- 1, w') \<and> chip w' = ([], ds)
    \<and> \<not> lock_held w' \<and> status_reads (trace w') = status_reads (trace w) @ [0xFF]"
  using assms by (simp add: write_gpio_dir_def tape_run)

lemma tape_tab_item_undefined:
  assumes "0 < EC_MAX_TIMEOUT_COUNT K" and "chip w = ([], 0xFF # ds)"
  shows "\<exists>w'. tab_item K tape_hw i tbl w = (Some (- EINVAL), tbl, w') \<and> chip w' = ([], ds)
    \<and> status_reads (trace w') = status_reads (trace w) @ [0xFF]"
  using assms by (simp add: tab_item_def tape_run)

lemma tape_tab_item_defined:
  assumes "0 < EC_MAX_TIMEOUT_COUNT K" and "chip w = ([], e # p # d # ds)"
    and "e \<noteq> 0xFF" and "p \<noteq> 0xFF"
  shows "\<exists>tbl' w'. tab_item K tape_hw i tbl w = (None, tbl', w') \<and> chip w' = ([], ds)
    \<and> status_reads (trace w') = status_reads (trace w) @ [e, p, d]"
  using assms by (simp add: tab_item_def tape_run)

lemma tape_tab_loop:
  assumes "0 < EC_MAX_TIMEOUT_COUNT K"
  shows "list_all answer_defined items \<Longrightarrow> i + length items < EC_MAX_TBL_NUM K \<Longrightarrow>
     chip w = ([], concat (map answer_bytes items) @ 0xFF # ds) \<Longrightarrow>
     \<exists>r tbl' w'. tab_loop K tape_hw i tbl w = (r, tbl', w') \<and> chip w' = ([], ds)
       \<and> status_reads (trace w')
           = status_reads (trace w) @ concat (map answer_bytes items) @ [0xFF]"
proof (induction items arbitrary: i tbl w)
  case Nil
  then have lt: "i < EC_MAX_TBL_NUM K" and c: "chip w = ([], 0xFF # ds)"
    by simp_all
  from tape_tab_item_undefined [OF assms c, of i tbl] lt show ?case
    by (auto simp: tab_loop_abort)
next
  case (Cons a as)
  obtain e p d where a: "a = (e, p, d)" by (cases a)
  from Cons.prems a have lt: "i < EC_MAX_TBL_NUM K"
    and c: "chip w = ([], e # p # d # concat (map answer_bytes as) @ 0xFF # ds)"
    and ne: "e \<noteq> 0xFF" "p \<noteq> 0xFF"
    by simp_all
  from tape_tab_item_defined [OF assms c ne, of i tbl] obtain tbl1 w1 where
    it: "tab_item K tape_hw i tbl w = (None, tbl1, w1)"
      "chip w1 = ([], concat (map answer_bytes as) @ 0xFF # ds)"
      "status_reads (trace w1) = status_reads (trace w) @ [e, p, d]"
    by blast
  from Cons.prems have "list_all answer_defined as" "Suc i + length as < EC_MAX_TBL_NUM K"
    by simp_all
  from Cons.IH [OF this it(2), of tbl1] it(1,3) lt a show ?case
    by (auto simp: tab_loop_next)
qed

lemma tape_read_ad_value_result:
  assumes "0 < EC_MAX_TIMEOUT_COUNT K" and "\<not> lock_held w" and "chip w = ([], 0xFF # ds)"
  shows "\<exists>w'. read_ad_value K tape_hw pin multi w = Inr (- 1, w') \<and> chip w' = ([], ds)
    \<and> suffix [(EC_STATUS_PORT, 0xFF)] (port_reads (trace w'))"
proof -
  from tape_read_ad_value_echo [OF assms, of pin multi] obtain w' where
    run: "read_ad_value K tape_hw pin multi w = Inr (- 1, w')" and c: "chip w' = ([], ds)"
    and reads: "status_reads (trace w') = status_reads (trace w) @ 0xFF # []"
    by auto
  from read_ad_value_echo [OF run reads] have "suffix [(EC_STATUS_PORT, 0xFF)] (port_reads (trace w'))"
    by simp
  with run c show ?thesis
    by blast
qed

lemma tape_read_gpio_status_result:
  assumes "0 < EC_MAX_TIMEOUT_COUNT K" and "\<not> lock_held w" and "chip w = ([], 0xFF # ds)"
  shows "\<exists>w'. read_gpio_status K tape_hw pin pv w = Inr (- 1, pv, w') \<and> chip w' = ([], ds)
    \<and> suffix [(EC_STATUS_PORT, 0xFF)] (port_reads (trace w'))"
proof -
  from tape_read_gpio_status_echo [OF assms, of pin pv] obtain w' where
    run: "read_gpio_status K tape_hw pin pv w = Inr (- 1, pv, w')" and c: "chip w' = ([], ds)"
    and reads: "status_reads (trace w') = status_reads (trace w) @ 0xFF # []"
    by auto
  from read_gpio_status_echo [OF run reads] have "suffix [(EC_STATUS_PORT, 0xFF)] (port_reads (trace w'))"
    by simp
  with run c show ?thesis
    by blast
qed

lemma tape_write_gpio_status_result:
  assumes "0 < EC_MAX_TIMEOUT_COUNT K" and "\<not> lock_held w" and "chip w = ([], 0xFF # ds)"
  shows "\<exists>w'. write_gpio_status K tape_hw pin v w = Inr (- 1, w') \<and> chip w' = ([], ds)
    \<and> suffix [(EC_STATUS_PORT, 0xFF)] (port_reads (trace w'))"
proof -
  from tape_write_gpio_status_echo [OF assms, of pin v] obtain w' where
    run: "write_gpio_status K tape_hw pin v w = Inr (- 1, w')" and c: "chip w' = ([], ds)"
    and reads: "status_reads (trace w') = status_reads (trace w) @ 0xFF # []"
    by auto
  from write_gpio_status_echo [OF run reads] have "suffix [(EC_STATUS_PORT, 0xFF)] (port_reads (trace w'))"
    by simp
  with run c show ?thesis
    by blast
qed

lemma tape_read_gpio_dir_result:
  assumes "0 < EC_MAX_TIMEOUT_COUNT K" and "\<not> lock_held w" and "chip w = ([], 0xFF # ds)"
  shows "\<exists>w'. read_gpio_dir K tape_hw pin pv w = Inr (- 1, pv, w') \<and> chip w' = ([], ds)
    \<and> suffix [(EC_STATUS_PORT, 0xFF)] (port_reads (trace w'))"
proof -
  from tape_read_gpio_dir_echo [OF assms, of pin pv] obtain w' where
    run: "read_gpio_dir K tape_hw pin pv w = Inr (- 1, pv, w')" and c: "chip w' = ([], ds)"
    and reads: "status_reads (trace w') = status_reads (trace w) @ 0xFF # []"
    by auto
  from read_gpio_dir_echo [OF run reads] have "suffix [(EC_STATUS_PORT, 0xFF)] (port_reads (trace w'))"
    by simp
  with run c show ?thesis
    by blast
qed

lemma tape_write_gpio_dir_result:
  assumes "0 < EC_MAX_TIMEOUT_COUNT K" and "\<not> lock_held w" and "chip w = ([], 0xFF # ds)"
  shows "\<exists>w'. write_gpio_dir K tape_hw pin v w = Inr (- 1, w') \<and> chip w' = ([], ds)
    \<and> suffix [(EC_STATUS_PORT, 0xFF)] (port_reads (trace w'))"
proof -
  from tape_write_gpio_dir_echo [OF assms, of pin v] obtain w' where
    run: "write_gpio_dir K tape_hw pin v w = Inr (- 1, w')" and c: "chip w' = ([], ds)"
    and reads: "status_reads (trace w') = status_reads (trace w) @ 0xFF # []"
    by auto
  from write_gpio_dir_echo [OF run reads] have "suffix [(EC_STATUS_PORT, 0xFF)] (port_reads (trace w'))"
    by simp
  with run c show ?thesis
    by blast
qed

lemma tape_adv_get_dynamic_tab_result:
  assumes "0 < EC_MAX_TIMEOUT_COUNT K" and "\<not> lock_held w"
    and "length dym_tbl = EC_MAX_TBL_NUM K" and "length items < EC_MAX_TBL_NUM K"
    and "list_all answer_defined items"
    and "chip w = ([], concat (map answer_bytes items) @ 0xFF # ds)"
  shows "\<exists>tbl' w'. adv_get_dynamic_tab K tape_hw dym_tbl w = Inr (- EINVAL, tbl', w')
    \<and> chip w' = ([], ds) \<and> suffix [(EC_STATUS_PORT, 0xFF)] (port_reads (trace w'))"
proof -
  let ?w1 = "w\<lparr>lock_held := True, trace := trace w @ [EvLock]\<rparr>"
  let ?t0 = "tbl_init_loop K 0 dym_tbl"
  have c1: "chip ?w1 = ([], concat (map answer_bytes items) @ 0xFF # ds)"
    using assms(6) by simp
  have lt: "0 + length items < EC_MAX_TBL_NUM K"
    using assms(4) by simp
  from tape_tab_loop [OF assms(1,5) lt c1, of ?t0] obtain r tbl' w' where
    loop: "tab_loop K tape_hw 0 ?t0 ?w1 = (r, tbl', w')" and c: "chip w' = ([], ds)"
    and reads: "status_reads (trace w')
      = status_reads (trace ?w1) @ concat (map answer_bytes items) @ 0xFF # []"
    by auto
  have len0: "length ?t0 = EC_MAX_TBL_NUM K"
    using assms(3) by (simp add: tbl_init_loop_eq)
  from tab_loop_echo [OF loop len0 reads]
  have "r = - EINVAL" "suffix [(EC_STATUS_PORT, 0xFF)] (port_reads (trace w'))"
    by simp_all
  moreover have "adv_get_dynamic_tab K tape_hw dym_tbl w = Inr (r, tbl', w')"
    using assms(2) loop by (simp add: adv_get_dynamic_tab_def mutex_lock_def)
  ultimately show ?thesis
    using c by blast
qed

section \<open>The mutex in the operations that take it\<close>

text \<open>
  The operations that call \<^verbatim>\<open>mutex_lock\<close> themselves take the mutex once and release it
  once on every path, as \<^verbatim>\<open>read_hw_ram\<close> and \<^verbatim>\<open>write_hw_ram\<close> do.
\<close>

lemma read_ad_value_mutex:
  "read_ad_value K H hwpin multi w = Inr (r, w') \<Longrightarrow>
     \<not> lock_held w \<and> \<not> lock_held w' \<and> lock_ops (trace w') = lock_ops (trace w) @ [EvLock, EvUnlock]"
  by (auto simp: read_ad_value_def mutex_lock_def case_prod_beta Let_def split: if_splits)

lemma read_gpio_status_mutex:
  "read_gpio_status K H pin pv w = Inr (r, pv', w') \<Longrightarrow>
     \<not> lock_held w \<and> \<not> lock_held w' \<and> lock_ops (trace w') = lock_ops (trace w) @ [EvLock, EvUnlock]"
  by (auto simp: read_gpio_status_def mutex_lock_def case_prod_beta Let_def split: if_splits)

lemma write_gpio_status_mutex:
  "write_gpio_status K H pin v w = Inr (r, w') \<Longrightarrow>
     \<not> lock_held w \<and> \<not> lock_held w' \<and> lock_ops (trace w') = lock_ops (trace w) @ [EvLock, EvUnlock]"
  by (auto simp: write_gpio_status_def mutex_lock_def case_prod_beta Let_def split: if_splits)

lemma read_gpio_dir_mutex:
  "read_gpio_dir K H pin pv w = Inr (r, pv', w') \<Longrightarrow>
     \<not> lock_held w \<and> \<not> lock_held w' \<and> lock_ops (trace w') = lock_ops (trace w) @ [EvLock, EvUnlock]"
  by (auto simp: read_gpio_dir_def mutex_lock_def case_prod_beta Let_def split: if_splits)

lemma write_gpio_dir_mutex:
  "write_gpio_dir K H pin v w = Inr (r, w') \<Longrightarrow>
     \<not> lock_held w \<and> \<not> lock_held w' \<and> lock_ops (trace w') = lock_ops (trace w) @ [EvLock, EvUnlock]"
  by (auto simp: write_gpio_dir_def mutex_lock_def case_prod_beta Let_def split: if_splits)

lemma tab_item_mutex:
  "tab_item K H i tbl w = (res, tbl', w') \<Longrightarrow>
     (case res of
        None \<Rightarrow> lock_held w' = lock_held w \<and> lock_ops (trace w') = lock_ops (trace w)
      | Some r \<Rightarrow> \<not> lock_held w' \<and> lock_ops (trace w') = lock_ops (trace w) @ [EvUnlock])"
  by (auto simp: tab_item_def case_prod_beta Let_def split: if_splits)

lemma tab_loop_mutex:
  "tab_loop K H i tbl w = (r, tbl', w') \<Longrightarrow>
     \<not> lock_held w' \<and> lock_ops (trace w') = lock_ops (trace w) @ [EvUnlock]"
proof (induction "EC_MAX_TBL_NUM K - i" arbitrary: i tbl w)
  case 0
  then show ?case
    by (auto simp add: tab_loop_done)
next
  case (Suc n)
  from Suc.hyps(2) have lt: "i < EC_MAX_TBL_NUM K" by simp
  have n: "n = EC_MAX_TBL_NUM K - Suc i" using Suc.hyps(2) by simp
  obtain res tbl1 w1 where it: "tab_item K H i tbl w = (res, tbl1, w1)"
    by (cases "tab_item K H i tbl w")
  note m = tab_item_mutex [OF it]
  show ?case
  proof (cases res)
    case None
    with it lt Suc.prems have "tab_loop K H (Suc i) tbl1 w1 = (r, tbl', w')"
      by (simp add: tab_loop_next)
    from Suc.hyps(1) [OF n this] m None show ?thesis
      by simp
  next
    case (Some r0)
    with it lt Suc.prems m show ?thesis
      by (simp add: tab_loop_abort)
  qed
qed

lemma adv_get_dynamic_tab_mutex:
  "adv_get_dynamic_tab K H dym_tbl w = Inr (r, tbl', w') \<Longrightarrow>
     \<not> lock_held w \<and> \<not> lock_held w' \<and> lock_ops (trace w') = lock_ops (trace w) @ [EvLock, EvUnlock]"
  by (auto simp: adv_get_dynamic_tab_def mutex_lock_def split: if_splits dest!: tab_loop_mutex)

section \<open>The passes of the completion poll\<close>

text \<open>
  When \<^verbatim>\<open>wait_smbus_protocol_finish\<close> times out it has called \<^verbatim>\<open>read_hw_ram\<close> 1001 times:
  the \<^verbatim>\<open>do ... while (retry-- > 0)\<close> loop runs its body once more than \<^verbatim>\<open>retry\<close> counts.
\<close>

lemma wait_smbus_loop_timeout_passes:
  "wait_smbus_loop K H n w = Inr (- ETIMEDOUT, w') \<Longrightarrow>
     lock_ops (trace w') = lock_ops (trace w) @ concat (replicate (Suc n) [EvLock, EvUnlock])"
proof (induction n arbitrary: w)
  case 0
  from "0.prems" obtain r0 d w1 where
    rd: "read_hw_ram K H (EC_SMBUS_PROTOCOL K) 0xFF w = Inr (r0, d, w1)"
    by (subst (asm) wait_smbus_loop.simps) (auto split: sum.splits)
  from "0.prems" rd have "w' = udelay H (EC_UDELAY_TIME K) w1"
    by (subst (asm) wait_smbus_loop.simps) (simp split: if_splits)
  with read_hw_ram_facts [OF rd] show ?case
    by simp
next
  case (Suc n)
  from Suc.prems obtain r0 d w1 where
    rd: "read_hw_ram K H (EC_SMBUS_PROTOCOL K) 0xFF w = Inr (r0, d, w1)"
    by (subst (asm) wait_smbus_loop.simps) (auto split: sum.splits)
  from Suc.prems rd
  have "wait_smbus_loop K H n (udelay H (EC_UDELAY_TIME K) w1) = Inr (- ETIMEDOUT, w')"
    by (subst (asm) wait_smbus_loop.simps) (simp split: if_splits)
  from Suc.IH [OF this] read_hw_ram_facts [OF rd] show ?case
    by simp
qed

lemma wait_smbus_protocol_finish_timeout_passes:
  "wait_smbus_protocol_finish K H w = Inr (- ETIMEDOUT, w') \<Longrightarrow>
     lock_ops (trace w') = lock_ops (trace w) @ concat (replicate 1001 [EvLock, EvUnlock])"
  unfolding wait_smbus_protocol_finish_def
  by (drule wait_smbus_loop_timeout_passes) simp

section \<open>Round trip through the RAM of the echoing controller\<close>

text \<open>
  Claim C6. On the controller that echoes writes (with distinct opcodes for "read RAM"
  and "write RAM", a retry budget of at least one poll, and the mutex free), writing
  \<open>V\<close> to the address \<open>A\<close> with \<^verbatim>\<open>write_hw_ram\<close> and then reading \<open>A\<close> with
  \<^verbatim>\<open>read_hw_ram\<close> returns 0 both times and delivers \<open>V\<close>, for every \<open>A\<close> and \<open>V\<close>.
\<close>

theorem write_hw_ram_read_hw_ram_round_trip:
  assumes "0 < EC_MAX_TIMEOUT_COUNT K" and "EC_HW_RAM_READ K \<noteq> EC_HW_RAM_WRITE K"
    and "\<not> lock_held w"
  shows "\<exists>w1 w2. write_hw_ram K (ram_hw K) A V w = Inr (0, w1)
           \<and> read_hw_ram K (ram_hw K) A d w1 = Inr (0, V, w2)"
proof -
  from ram_write_hw_ram [OF assms, of A V] obtain w1 where
    w1: "write_hw_ram K (ram_hw K) A V w = Inr (0, w1)" "\<not> lock_held w1"
      "ram (chip w1) = (ram (chip w))(A := V)"
    by blast
  from ram_read_hw_ram [OF assms(1) w1(2), of A d] w1(3) obtain w2 where
    "read_hw_ram K (ram_hw K) A d w1 = Inr (0, V, w2)"
    by auto
  with w1(1) show ?thesis
    by blast
qed

theorem write_hw_ram_read_hw_ram_round_trip_witness:
  "(0 < EC_MAX_TIMEOUT_COUNT test_defs \<and> EC_HW_RAM_READ test_defs \<noteq> EC_HW_RAM_WRITE test_defs
    \<and> \<not> lock_held (ram_world (\<lambda>a. 0)))
   \<and> (\<exists>w1 w2. write_hw_ram test_defs (ram_hw test_defs) 0x10 0x7A (ram_world (\<lambda>a. 0)) = Inr (0, w1)
           \<and> read_hw_ram test_defs (ram_hw test_defs) 0x10 0 w1 = Inr (0, 0x7A, w2))"
proof -
  have h: "0 < EC_MAX_TIMEOUT_COUNT test_defs"
    "EC_HW_RAM_READ test_defs \<noteq> EC_HW_RAM_WRITE test_defs"
    "\<not> lock_held (ram_world (\<lambda>a. 0))"
    by (simp_all add: test_defs_def ram_world_def)
  from write_hw_ram_read_hw_ram_round_trip [OF h, of "0x10" "0x7A" 0] h show ?thesis
    by blast
qed

section \<open>The completion poll of an SMBus transaction\<close>

text \<open>
  Claim C2 says that the poll succeeds only once the protocol cell reads 0 and times out
  otherwise. \<^verbatim>\<open>wait_smbus_protocol_finish\<close> returns 0 as soon as one read of the protocol
  cell comes back, whatever the byte: on the echoing controller, whose reads always come
  back, a protocol cell that holds a non-zero byte is read once, the poll returns 0, and
  the cell still holds that byte.
\<close>

theorem wait_smbus_protocol_finish_nonzero_cell:
  assumes "0 < EC_MAX_TIMEOUT_COUNT K" and "\<not> lock_held w"
    and "ram (chip w) (EC_SMBUS_PROTOCOL K) \<noteq> 0"
  shows "\<exists>w'. wait_smbus_protocol_finish K (ram_hw K) w = Inr (0, w')
           \<and> status_reads (trace w') = status_reads (trace w) @ [ram (chip w) (EC_SMBUS_PROTOCOL K)]
           \<and> ram (chip w') (EC_SMBUS_PROTOCOL K) \<noteq> 0"
proof -
  from ram_read_hw_ram [OF assms(1,2), of "EC_SMBUS_PROTOCOL K" "0xFF"] obtain w' where
    rd: "read_hw_ram K (ram_hw K) (EC_SMBUS_PROTOCOL K) 0xFF w
           = Inr (0, ram (chip w) (EC_SMBUS_PROTOCOL K), w')"
      "ram (chip w') = ram (chip w)"
    by blast
  from read_hw_ram_facts [OF rd(1)]
  have "status_reads (trace w') = status_reads (trace w) @ [ram (chip w) (EC_SMBUS_PROTOCOL K)]"
    by simp
  moreover from rd(1) have "wait_smbus_protocol_finish K (ram_hw K) w = Inr (0, w')"
    by (simp add: wait_smbus_protocol_finish_def wait_smbus_loop.simps)
  ultimately show ?thesis
    using rd(2) assms(3) by auto
qed

theorem wait_smbus_protocol_finish_nonzero_cell_witness:
  "(0 < EC_MAX_TIMEOUT_COUNT test_defs \<and> \<not> lock_held (ram_world ((\<lambda>a. 0)(0x40 := 0x07)))
    \<and> ram (chip (ram_world ((\<lambda>a. 0)(0x40 := 0x07)))) (EC_SMBUS_PROTOCOL test_defs) \<noteq> 0)
   \<and> (\<exists>w'. wait_smbus_protocol_finish test_defs (ram_hw test_defs)
               (ram_world ((\<lambda>a. 0)(0x40 := 0x07))) = Inr (0, w')
          \<and> status_reads (trace w') = [0x07])"
proof -
  have h: "0 < EC_MAX_TIMEOUT_COUNT test_defs"
    "\<not> lock_held (ram_world ((\<lambda>a. 0)(0x40 := 0x07)))"
    "ram (chip (ram_world ((\<lambda>a. 0)(0x40 := 0x07)))) (EC_SMBUS_PROTOCOL test_defs) \<noteq> 0"
    by (simp_all add: test_defs_def ram_world_def)
  have "status_reads (trace (ram_world ((\<lambda>a. 0)(0x40 := 0x07)))) = []"
    "ram (chip (ram_world ((\<lambda>a. 0)(0x40 := 0x07)))) (EC_SMBUS_PROTOCOL test_defs) = 0x07"
    by (simp_all add: test_defs_def ram_world_def)
  with wait_smbus_protocol_finish_nonzero_cell [OF h] h show ?thesis
    by auto
qed

section \<open>The status check of an SMBus transaction\<close>

text \<open>
  Claim C1 says that a status byte other than 0x80 makes the three SMBus operations
  fail. They take the error exit with \<^verbatim>\<open>ret\<close> still 0 from the read of the status cell,
  so they return 0. Here \<open>p\<close> is the byte the completion poll read, \<open>s\<close> the status
  byte read next and \<open>rest\<close> the bytes read from the data port after it: whenever
  \<open>s\<close> is not 0x80, the call returns 0, leaves the request as it was, and reads no
  further byte.
\<close>

theorem smbus_bad_status_returns_0:
  assumes "s \<noteq> 0x80"
  shows "(smbus_read_byte K H (Some rb) w = Inr (r1, p1, w1)
            \<and> status_reads (trace w1) = status_reads (trace w) @ p # s # rest
          \<longrightarrow> r1 = 0 \<and> p1 = Some rb \<and> rest = [])
       \<and> (smbus_read_word K H (Some rw) w = Inr (r2, p2, w2)
            \<and> status_reads (trace w2) = status_reads (trace w) @ p # s # rest
          \<longrightarrow> r2 = 0 \<and> p2 = Some rw \<and> rest = [])
       \<and> (smbus_write_byte K H (Some wb) w = Inr (r3, w3)
            \<and> status_reads (trace w3) = status_reads (trace w) @ p # s # rest
          \<longrightarrow> r3 = 0 \<and> rest = [])"
  using assms smbus_read_byte_status [of K H rb w r1 p1 w1 p s rest]
    smbus_read_word_status [of K H rw w r2 p2 w2 p s rest]
    smbus_write_byte_status [of K H wb w r3 w3 p s rest]
  by blast

text \<open>
  The example of the spec on the scripted controller: the poll reads 0, the status cell
  reads 0x10 and the data cell would read 0x7A. \<^verbatim>\<open>smbus_read_byte\<close> returns 0 and
  \<^verbatim>\<open>Data\<close> keeps its old value 0.
\<close>

theorem smbus_bad_status_returns_0_witness:
  "(0x10 :: uchar) \<noteq> 0x80
   \<and> (\<exists>r p w'. smbus_read_byte test_defs tape_hw (Some byte_req) (tape_world [] [0, 0x10, 0x7A])
                  = Inr (r, p, w')
         \<and> status_reads (trace w') = [0, 0x10] \<and> r = 0 \<and> p = Some byte_req)"
proof -
  let ?w = "tape_world [] [0, 0x10, 0x7A]"
  let ?run = "smbus_read_byte test_defs tape_hw (Some byte_req) ?w"
  have h: "(0x10 :: uchar) \<noteq> 0x80" by simp
  have "\<not> isl ?run" by code_simp
  then obtain r p w' where run: "?run = Inr (r, p, w')"
    by (cases ?run) auto
  have "status_reads (trace (snd (snd (projr ?run)))) = [0, 0x10]" by code_simp
  with run have reads: "status_reads (trace w') = status_reads (trace ?w) @ 0 # 0x10 # []"
    by (simp add: tape_world_def)
  from smbus_bad_status_returns_0 [OF h, of test_defs tape_hw byte_req ?w r p w' 0 "[]"]
    run reads
  have "r = 0 \<and> p = Some byte_req" by blast
  with h run reads show ?thesis
    by (simp add: tape_world_def)
qed

section \<open>SMBus word read\<close>



section \<open>The mutex in the SMBus byte write\<close>

text \<open>
  Claim C7 says that every operation takes the mutex once at entry and releases it once
  before every return. \<^verbatim>\<open>smbus_write_byte\<close> never takes it: whenever it returns, the
  mutex was free at entry, every \<^verbatim>\<open>mutex_lock\<close> of the call was that of a HW-RAM access
  and was followed by the \<^verbatim>\<open>mutex_unlock\<close> of the same access, and the call ended with
  one more \<^verbatim>\<open>mutex_unlock\<close>, on a mutex that was not held.
\<close>

theorem smbus_write_byte_unlocks_free_mutex:
  assumes "smbus_write_byte K H (Some req) w = Inr (r, w')"
  shows "\<not> lock_held w \<and>
    (\<exists>ps. paired ps \<and> lock_ops (trace w') = lock_ops (trace w) @ ps @ [EvUnlock])"
proof -
  have u: "\<not> lock_held w"
    using assms(1) smbus_write_byte_Deadlock [of w K H req] by auto
  have "\<exists>ys. unlock_after_pairs ys \<and> lock_ops (trace w') = lock_ops (trace w) @ ys"
    using assms u
    by (auto simp add: smbus_write_byte_def case_prod_beta Let_def smbus_run
        split: if_splits)
  then obtain ys where ys: "unlock_after_pairs ys"
    "lock_ops (trace w') = lock_ops (trace w) @ ys"
    by blast
  from unlock_after_pairs_split [OF ys(1)] ys(2) u show ?thesis
    by auto
qed

text \<open>
  A byte write that succeeds on the scripted controller: seven HW-RAM accesses, each
  with its own lock and unlock, and an eighth unlock.
\<close>

theorem smbus_write_byte_unlocks_free_mutex_witness:
  "\<exists>r w'. smbus_write_byte test_defs tape_hw (Some byte_req) (tape_world [] [0, 0x80]) = Inr (r, w')
      \<and> lock_ops (trace w')
          = concat (replicate 7 [EvLock, EvUnlock]) @ [EvUnlock]
      \<and> (\<exists>ps. paired ps \<and> lock_ops (trace w') = ps @ [EvUnlock])"
proof -
  let ?w = "tape_world [] [0, 0x80]"
  let ?run = "smbus_write_byte test_defs tape_hw (Some byte_req) ?w"
  have "\<not> isl ?run" by code_simp
  then obtain r w' where run: "?run = Inr (r, w')"
    by (cases ?run) auto
  have "lock_ops (trace (snd (projr ?run))) = concat (replicate 7 [EvLock, EvUnlock]) @ [EvUnlock]"
    by code_simp
  with run have ops: "lock_ops (trace w') = concat (replicate 7 [EvLock, EvUnlock]) @ [EvUnlock]"
    by simp
  from smbus_write_byte_unlocks_free_mutex [OF run]
  have "\<exists>ps. paired ps \<and> lock_ops (trace w') = ps @ [EvUnlock]"
    by (simp add: tape_world_def)
  with run ops show ?thesis
    by blast
qed

section \<open>NULL request pointers\<close>

text \<open>
  Claim C10. \<^verbatim>\<open>smbus_read_byte\<close> answers a NULL request with \<open>- EINVAL\<close> and touches
  neither the ports nor the mutex; \<^verbatim>\<open>smbus_read_word\<close> and \<^verbatim>\<open>smbus_write_byte\<close> read
  the channel through the pointer first, so that a NULL request is a fault.
\<close>

theorem smbus_null_request:
  "smbus_read_byte K H None w = Inr (- EINVAL, None, w)
   \<and> smbus_read_word K H None w = Inl NullDeref
   \<and> smbus_write_byte K H None w = Inl NullDeref"
  by (simp add: smbus_read_byte_def smbus_read_word_def smbus_write_byte_def)

theorem smbus_null_request_witness:
  "smbus_read_byte test_defs tape_hw None (tape_world [] []) = Inr (- 22, None, tape_world [] [])
   \<and> smbus_read_word test_defs tape_hw None (tape_world [] []) = Inl NullDeref
   \<and> smbus_write_byte test_defs tape_hw None (tape_world [] []) = Inl NullDeref"
  using smbus_null_request [of test_defs tape_hw "tape_world [] []"]
  by (simp add: EINVAL_def)

section \<open>AD conversion\<close>



section \<open>Enumeration up to an undefined item\<close>

text \<open>
  Claim C5. \<^verbatim>\<open>adv_get_dynamic_tab\<close> runs on a table of \<^verbatim>\<open>EC_MAX_TBL_NUM\<close> entries.
  When the bytes it read from the data port are the answers for some items, three bytes
  each (echo, pin number, device identifier), followed by the byte 0xFF, then that 0xFF
  was the echo of the next item: the call returns \<open>- EINVAL\<close>, fewer items than the
  capacity were answered, each with an echo and a pin other than 0xFF, and the table holds
  their (device identifier, pin number) pairs followed by (0xFF, 0xFF) in every remaining
  entry, whatever it held before the call.
\<close>

theorem adv_get_dynamic_tab_undefined_item:
  assumes "adv_get_dynamic_tab K H dym_tbl w = Inr (r, tbl', w')"
    and "length dym_tbl = EC_MAX_TBL_NUM K"
    and "status_reads (trace w') = status_reads (trace w) @ concat (map answer_bytes items) @ [0xFF]"
  shows "r = - EINVAL \<and> length items < EC_MAX_TBL_NUM K \<and> list_all answer_defined items
    \<and> tbl' = map answer_entry items
         @ replicate (EC_MAX_TBL_NUM K - length items) \<lparr>DeviceID = 0xFF, HWPinNumber = 0xFF\<rparr>
    \<and> \<not> lock_held w'"
proof -
  let ?w1 = "w\<lparr>lock_held := True, trace := trace w @ [EvLock]\<rparr>"
  let ?t0 = "tbl_init_loop K 0 dym_tbl"
  from assms(1) have loop: "tab_loop K H 0 ?t0 ?w1 = (r, tbl', w')"
    by (auto simp: adv_get_dynamic_tab_def mutex_lock_def split: if_splits)
  have t0: "?t0 = replicate (EC_MAX_TBL_NUM K) \<lparr>DeviceID = 0xFF, HWPinNumber = 0xFF\<rparr>"
    using assms(2) by (simp add: tbl_init_loop_eq)
  then have len: "length ?t0 = EC_MAX_TBL_NUM K" by simp
  have reads: "status_reads (trace w') = status_reads (trace ?w1) @ concat (map answer_bytes items) @ 0xFF # []"
    using assms(3) by simp
  from tab_loop_echo [OF loop len reads] t0 show ?thesis
    by simp
qed

text \<open>
  A table of four stale entries on the scripted controller: two items are answered, the
  third is undefined.
\<close>

theorem adv_get_dynamic_tab_undefined_item_witness:
  "\<exists>r tbl' w'. adv_get_dynamic_tab test_defs tape_hw (replicate 4 \<lparr>DeviceID = 1, HWPinNumber = 2\<rparr>)
        (tape_world [] [0, 7, 9, 1, 8, 10, 0xFF]) = Inr (r, tbl', w')
      \<and> status_reads (trace w') = concat (map answer_bytes [(0, 7, 9), (1, 8, 10)]) @ [0xFF]
      \<and> r = - 22
      \<and> tbl' = [\<lparr>DeviceID = 9, HWPinNumber = 7\<rparr>, \<lparr>DeviceID = 10, HWPinNumber = 8\<rparr>,
                \<lparr>DeviceID = 0xFF, HWPinNumber = 0xFF\<rparr>, \<lparr>DeviceID = 0xFF, HWPinNumber = 0xFF\<rparr>]"
proof -
  let ?w = "tape_world [] [0, 7, 9, 1, 8, 10, 0xFF]"
  let ?t = "replicate 4 \<lparr>DeviceID = 1, HWPinNumber = 2\<rparr> :: Dynamic_Tab list"
  let ?run = "adv_get_dynamic_tab test_defs tape_hw ?t ?w"
  have "\<not> isl ?run" by code_simp
  then obtain r tbl' w' where run: "?run = Inr (r, tbl', w')"
    by (cases ?run) auto
  have len: "length ?t = EC_MAX_TBL_NUM test_defs"
    by (simp add: test_defs_def)
  have "status_reads (trace (snd (snd (projr ?run)))) = [0, 7, 9, 1, 8, 10, 0xFF]" by code_simp
  with run have reads: "status_reads (trace w')
      = status_reads (trace ?w) @ concat (map answer_bytes [(0, 7, 9), (1, 8, 10)]) @ [0xFF]"
    by (simp add: tape_world_def)
  from adv_get_dynamic_tab_undefined_item [OF run len reads]
  have "r = - 22 \<and> tbl' = [\<lparr>DeviceID = 9, HWPinNumber = 7\<rparr>, \<lparr>DeviceID = 10, HWPinNumber = 8\<rparr>,
                \<lparr>DeviceID = 0xFF, HWPinNumber = 0xFF\<rparr>, \<lparr>DeviceID = 0xFF, HWPinNumber = 0xFF\<rparr>]"
    by (simp add: test_defs_def EINVAL_def numeral_2_eq_2)
  with run reads show ?thesis
    by (simp add: tape_world_def)
qed

section \<open>The "not found" echo\<close>

text \<open>
  Claim C3. In the AD read, the four GPIO operations and the table enumeration, an echo
  of 0xFF to the selected pin or item ends the call.

  On any hardware: when the byte read from the data port as that echo is 0xFF,
  \<^verbatim>\<open>read_ad_value\<close> and the GPIO operations return -1, \<^verbatim>\<open>adv_get_dynamic_tab\<close> returns
  \<open>- EINVAL\<close>, no byte is read from the data port after the echo (\<open>rest\<close> is empty), and
  the echo is the last read of any port in the trace. For the table the echo may follow
  the answers of earlier items.

  And each operation does get there: on the scripted controller, which is always ready,
  with a retry budget of at least one poll and the mutex free, a data port that answers
  the selection with 0xFF makes every one of the five pin operations return -1 (the
  reading ones with their output value untouched), whatever \<open>ds\<close> the data port holds
  after the echo is still there when the call returns; the enumeration, after the answers
  of any number of defined items below the capacity, returns \<open>- EINVAL\<close> in the same way.
\<close>

theorem not_found_echo_ends_operation:
  "(read_ad_value K H pin multi w = Inr (r1, w1)
      \<and> status_reads (trace w1) = status_reads (trace w) @ 0xFF # rest
    \<longrightarrow> r1 = - 1 \<and> rest = [] \<and> suffix [(EC_STATUS_PORT, 0xFF)] (port_reads (trace w1)))
   \<and> (read_gpio_status K H pin pv w = Inr (r2, pv2, w2)
      \<and> status_reads (trace w2) = status_reads (trace w) @ 0xFF # rest
    \<longrightarrow> r2 = - 1 \<and> rest = [] \<and> suffix [(EC_STATUS_PORT, 0xFF)] (port_reads (trace w2)))
   \<and> (write_gpio_status K H pin v w = Inr (r3, w3)
      \<and> status_reads (trace w3) = status_reads (trace w) @ 0xFF # rest
    \<longrightarrow> r3 = - 1 \<and> rest = [] \<and> suffix [(EC_STATUS_PORT, 0xFF)] (port_reads (trace w3)))
   \<and> (read_gpio_dir K H pin pv w = Inr (r4, pv4, w4)
      \<and> status_reads (trace w4) = status_reads (trace w) @ 0xFF # rest
    \<longrightarrow> r4 = - 1 \<and> rest = [] \<and> suffix [(EC_STATUS_PORT, 0xFF)] (port_reads (trace w4)))
   \<and> (write_gpio_dir K H pin v w = Inr (r5, w5)
      \<and> status_reads (trace w5) = status_reads (trace w) @ 0xFF # rest
    \<longrightarrow> r5 = - 1 \<and> rest = [] \<and> suffix [(EC_STATUS_PORT, 0xFF)] (port_reads (trace w5)))
   \<and> (adv_get_dynamic_tab K H dym_tbl w = Inr (r6, tbl6, w6)
      \<and> length dym_tbl = EC_MAX_TBL_NUM K
      \<and> status_reads (trace w6) = status_reads (trace w) @ concat (map answer_bytes items) @ 0xFF # rest
    \<longrightarrow> r6 = - EINVAL \<and> rest = [] \<and> suffix [(EC_STATUS_PORT, 0xFF)] (port_reads (trace w6)))
   \<and> (0 < EC_MAX_TIMEOUT_COUNT K \<and> \<not> lock_held u \<and> chip u = ([], 0xFF # ds)
    \<longrightarrow> (\<exists>u'. read_ad_value K tape_hw pin multi u = Inr (- 1, u') \<and> chip u' = ([], ds)
            \<and> suffix [(EC_STATUS_PORT, 0xFF)] (port_reads (trace u')))
      \<and> (\<exists>u'. read_gpio_status K tape_hw pin pv u = Inr (- 1, pv, u') \<and> chip u' = ([], ds)
            \<and> suffix [(EC_STATUS_PORT, 0xFF)] (port_reads (trace u')))
      \<and> (\<exists>u'. write_gpio_status K tape_hw pin v u = Inr (- 1, u') \<and> chip u' = ([], ds)
            \<and> suffix [(EC_STATUS_PORT, 0xFF)] (port_reads (trace u')))
      \<and> (\<exists>u'. read_gpio_dir K tape_hw pin pv u = Inr (- 1, pv, u') \<and> chip u' = ([], ds)
            \<and> suffix [(EC_STATUS_PORT, 0xFF)] (port_reads (trace u')))
      \<and> (\<exists>u'. write_gpio_dir K tape_hw pin v u = Inr (- 1, u') \<and> chip u' = ([], ds)
            \<and> suffix [(EC_STATUS_PORT, 0xFF)] (port_reads (trace u'))))
   \<and> (0 < EC_MAX_TIMEOUT_COUNT K \<and> \<not> lock_held t \<and> length dym_tbl = EC_MAX_TBL_NUM K
      \<and> length items < EC_MAX_TBL_NUM K \<and> list_all answer_defined items
      \<and> chip t = ([], concat (map answer_bytes items) @ 0xFF # dt)
    \<longrightarrow> (\<exists>tbl' t'. adv_get_dynamic_tab K tape_hw dym_tbl t = Inr (- EINVAL, tbl', t')
            \<and> chip t' = ([], dt)
            \<and> suffix [(EC_STATUS_PORT, 0xFF)] (port_reads (trace t'))))"
proof -
  have tab: "r6 = - EINVAL \<and> rest = [] \<and> suffix [(EC_STATUS_PORT, 0xFF)] (port_reads (trace w6))"
    if run: "adv_get_dynamic_tab K H dym_tbl w = Inr (r6, tbl6, w6)"
      and len: "length dym_tbl = EC_MAX_TBL_NUM K"
      and reads: "status_reads (trace w6)
        = status_reads (trace w) @ concat (map answer_bytes items) @ 0xFF # rest"
  proof -
    let ?w1 = "w\<lparr>lock_held := True, trace := trace w @ [EvLock]\<rparr>"
    let ?t0 = "tbl_init_loop K 0 dym_tbl"
    from run have loop: "tab_loop K H 0 ?t0 ?w1 = (r6, tbl6, w6)"
      by (auto simp: adv_get_dynamic_tab_def mutex_lock_def split: if_splits)
    have len0: "length ?t0 = EC_MAX_TBL_NUM K"
      using len by (simp add: tbl_init_loop_eq)
    have "status_reads (trace w6)
        = status_reads (trace ?w1) @ concat (map answer_bytes items) @ 0xFF # rest"
      using reads by simp
    from tab_loop_echo [OF loop len0 this] show ?thesis
      by simp
  qed
  have general: "(read_ad_value K H pin multi w = Inr (r1, w1)
      \<and> status_reads (trace w1) = status_reads (trace w) @ 0xFF # rest
    \<longrightarrow> r1 = - 1 \<and> rest = [] \<and> suffix [(EC_STATUS_PORT, 0xFF)] (port_reads (trace w1)))
   \<and> (read_gpio_status K H pin pv w = Inr (r2, pv2, w2)
      \<and> status_reads (trace w2) = status_reads (trace w) @ 0xFF # rest
    \<longrightarrow> r2 = - 1 \<and> rest = [] \<and> suffix [(EC_STATUS_PORT, 0xFF)] (port_reads (trace w2)))
   \<and> (write_gpio_status K H pin v w = Inr (r3, w3)
      \<and> status_reads (trace w3) = status_reads (trace w) @ 0xFF # rest
    \<longrightarrow> r3 = - 1 \<and> rest = [] \<and> suffix [(EC_STATUS_PORT, 0xFF)] (port_reads (trace w3)))
   \<and> (read_gpio_dir K H pin pv w = Inr (r4, pv4, w4)
      \<and> status_reads (trace w4) = status_reads (trace w) @ 0xFF # rest
    \<longrightarrow> r4 = - 1 \<and> rest = [] \<and> suffix [(EC_STATUS_PORT, 0xFF)] (port_reads (trace w4)))
   \<and> (write_gpio_dir K H pin v w = Inr (r5, w5)
      \<and> status_reads (trace w5) = status_reads (trace w) @ 0xFF # rest
    \<longrightarrow> r5 = - 1 \<and> rest = [] \<and> suffix [(EC_STATUS_PORT, 0xFF)] (port_reads (trace w5)))
   \<and> (adv_get_dynamic_tab K H dym_tbl w = Inr (r6, tbl6, w6)
      \<and> length dym_tbl = EC_MAX_TBL_NUM K
      \<and> status_reads (trace w6) = status_reads (trace w) @ concat (map answer_bytes items) @ 0xFF # rest
    \<longrightarrow> r6 = - EINVAL \<and> rest = [] \<and> suffix [(EC_STATUS_PORT, 0xFF)] (port_reads (trace w6)))"
    using tab read_ad_value_echo [of K H pin multi w r1 w1 rest]
      read_gpio_status_echo [of K H pin pv w r2 pv2 w2 rest]
      write_gpio_status_echo [of K H pin v w r3 w3 rest]
      read_gpio_dir_echo [of K H pin pv w r4 pv4 w4 rest]
      write_gpio_dir_echo [of K H pin v w r5 w5 rest]
    by blast
  have pins: "(\<exists>u'. read_ad_value K tape_hw pin multi u = Inr (- 1, u') \<and> chip u' = ([], ds)
            \<and> suffix [(EC_STATUS_PORT, 0xFF)] (port_reads (trace u')))
      \<and> (\<exists>u'. read_gpio_status K tape_hw pin pv u = Inr (- 1, pv, u') \<and> chip u' = ([], ds)
            \<and> suffix [(EC_STATUS_PORT, 0xFF)] (port_reads (trace u')))
      \<and> (\<exists>u'. write_gpio_status K tape_hw pin v u = Inr (- 1, u') \<and> chip u' = ([], ds)
            \<and> suffix [(EC_STATUS_PORT, 0xFF)] (port_reads (trace u')))
      \<and> (\<exists>u'. read_gpio_dir K tape_hw pin pv u = Inr (- 1, pv, u') \<and> chip u' = ([], ds)
            \<and> suffix [(EC_STATUS_PORT, 0xFF)] (port_reads (trace u')))
      \<and> (\<exists>u'. write_gpio_dir K tape_hw pin v u = Inr (- 1, u') \<and> chip u' = ([], ds)
            \<and> suffix [(EC_STATUS_PORT, 0xFF)] (port_reads (trace u')))"
    if "0 < EC_MAX_TIMEOUT_COUNT K" and "\<not> lock_held u" and "chip u = ([], 0xFF # ds)"
    using tape_read_ad_value_result [OF that, of pin multi]
      tape_read_gpio_status_result [OF that, of pin pv]
      tape_write_gpio_status_result [OF that, of pin v]
      tape_read_gpio_dir_result [OF that, of pin pv]
      tape_write_gpio_dir_result [OF that, of pin v]
    by (intro conjI)
  have table: "\<exists>tbl' t'. adv_get_dynamic_tab K tape_hw dym_tbl t = Inr (- EINVAL, tbl', t')
            \<and> chip t' = ([], dt)
            \<and> suffix [(EC_STATUS_PORT, 0xFF)] (port_reads (trace t'))"
    if "0 < EC_MAX_TIMEOUT_COUNT K" and "\<not> lock_held t" and "length dym_tbl = EC_MAX_TBL_NUM K"
      and "length items < EC_MAX_TBL_NUM K" and "list_all answer_defined items"
      and "chip t = ([], concat (map answer_bytes items) @ 0xFF # dt)"
    using that by (rule tape_adv_get_dynamic_tab_result)
  from general pins table show ?thesis
    by blast
qed

text \<open>
  On the scripted controller with the data port holding 0xFF and then 1: each of the five
  pin operations returns -1 and leaves the 1 unread. With the answers of two items, then
  0xFF and then 5, the enumeration returns -22 and leaves the 5 unread.
\<close>

theorem not_found_echo_ends_operation_witness:
  "(\<exists>w'. read_ad_value test_defs tape_hw 5 1 (tape_world [] [0xFF, 1]) = Inr (- 1, w')
         \<and> chip w' = ([], [1]))
   \<and> (\<exists>w'. read_gpio_status test_defs tape_hw 5 0xEE (tape_world [] [0xFF, 1]) = Inr (- 1, 0xEE, w')
         \<and> chip w' = ([], [1]))
   \<and> (\<exists>w'. write_gpio_status test_defs tape_hw 5 1 (tape_world [] [0xFF, 1]) = Inr (- 1, w')
         \<and> chip w' = ([], [1]))
   \<and> (\<exists>w'. read_gpio_dir test_defs tape_hw 5 0xEE (tape_world [] [0xFF, 1]) = Inr (- 1, 0xEE, w')
         \<and> chip w' = ([], [1]))
   \<and> (\<exists>w'. write_gpio_dir test_defs tape_hw 5 1 (tape_world [] [0xFF, 1]) = Inr (- 1, w')
         \<and> chip w' = ([], [1]))
   \<and> (\<exists>tbl' w'. adv_get_dynamic_tab test_defs tape_hw (replicate 4 \<lparr>DeviceID = 1, HWPinNumber = 2\<rparr>)
           (tape_world [] [0, 7, 9, 1, 8, 10, 0xFF, 5]) = Inr (- 22, tbl', w')
         \<and> chip w' = ([], [5]))"
proof -
  let ?u = "tape_world [] [0xFF, 1]"
  let ?t = "tape_world [] [0, 7, 9, 1, 8, 10, 0xFF, 5]"
  let ?tbl = "replicate 4 \<lparr>DeviceID = 1, HWPinNumber = 2\<rparr> :: Dynamic_Tab list"
  have hu: "0 < EC_MAX_TIMEOUT_COUNT test_defs \<and> \<not> lock_held ?u \<and> chip ?u = ([], 0xFF # [1])"
    by (simp add: test_defs_def tape_world_def)
  have ht: "0 < EC_MAX_TIMEOUT_COUNT test_defs \<and> \<not> lock_held ?t
      \<and> length ?tbl = EC_MAX_TBL_NUM test_defs
      \<and> length [(0, 7, 9), (1, 8, 10) :: tab_answer] < EC_MAX_TBL_NUM test_defs
      \<and> list_all answer_defined [(0, 7, 9), (1, 8, 10)]
      \<and> chip ?t = ([], concat (map answer_bytes [(0, 7, 9), (1, 8, 10)]) @ 0xFF # [5])"
    by (simp add: test_defs_def tape_world_def)
  note inst = not_found_echo_ends_operation [where K = test_defs and u = ?u and ds = "[1]" and dt = "[5]"
      and pin = 5 and multi = 1 and pv = "0xEE" and v = 1 and t = ?t and dym_tbl = ?tbl
      and items = "[(0, 7, 9), (1, 8, 10)]"]
  note tape = inst [unfolded EINVAL_def, THEN conjunct2, THEN conjunct2, THEN conjunct2,
      THEN conjunct2, THEN conjunct2, THEN conjunct2]
  note pins = tape [THEN conjunct1, THEN mp, OF hu]
  note table = tape [THEN conjunct2, THEN mp, OF ht]
  from pins table show ?thesis
    by (elim conjE exE) (intro conjI exI, assumption+)
qed

end
